theory Spec2Isabelle
  imports Complex_Main "HOL-Library.Log_Nat"
begin

section \<open>Python floats\<close>

text \<open>
  The engine computes with Python \<^verbatim>\<open>float\<close>s, that is IEEE 754 binary64 numbers. A finite
  float is modelled by the rational number it denotes, next to the two infinities and NaN.
  The two zeros are identified: Python's \<^verbatim>\<open>==\<close> does not tell them apart, and no operation
  of the engine does either (a division by either zero raises).

  Every arithmetic operation computes the exact rational result and rounds it with \<open>fl\<close>:
  to the nearest number with a 53 bit significand, ties to the even significand, with the
  subnormal spacing \<open>2 ^ - 1074\<close> below \<open>2 ^ - 1022\<close> and with overflow to an infinity.
\<close>

datatype pyfloat = Finite rat | PInf | NInf | NaN

datatype error = ZeroDivisionError | OverflowError | HTTPException nat

definition pow2 :: "int \<Rightarrow> rat" where
  "pow2 e = (if 0 \<le> e then 2 ^ nat e else 1 / 2 ^ nat (- e))"

text \<open>\<open>ilog2 q\<close> is the binary exponent of a positive rational: \<open>2 ^ ilog2 q \<le> q < 2 ^ (ilog2 q + 1)\<close>.\<close>

definition ilog2 :: "rat \<Rightarrow> int" where
  "ilog2 q = (if 1 \<le> q then bitlen \<lfloor>q\<rfloor> - 1 else - bitlen (\<lceil>1 / q\<rceil> - 1))"

definition round_half_even :: "rat \<Rightarrow> int" where
  "round_half_even q =
     (let f = \<lfloor>q\<rfloor>; d = q - of_int f
      in if d < 1 / 2 then f else if 1 / 2 < d then f + 1 else if even f then f else f + 1)"

definition fl :: "rat \<Rightarrow> pyfloat" where
  "fl q =
     (if q = 0 then Finite 0
      else
        let e = max (ilog2 \<bar>q\<bar>) (- 1022);
            u = pow2 (e - 52);
            r = of_int (round_half_even (q / u)) * u
        in if 2 ^ 1024 \<le> \<bar>r\<bar> then (if 0 < q then PInf else NInf) else Finite r)"

fun is_neg :: "pyfloat \<Rightarrow> bool" where
  "is_neg (Finite q) = (q < 0)"
| "is_neg NInf = True"
| "is_neg PInf = False"
| "is_neg NaN = False"

fun fneg :: "pyfloat \<Rightarrow> pyfloat" where
  "fneg (Finite q) = Finite (- q)"
| "fneg PInf = NInf"
| "fneg NInf = PInf"
| "fneg NaN = NaN"

fun fadd :: "pyfloat \<Rightarrow> pyfloat \<Rightarrow> pyfloat" where
  "fadd (Finite a) (Finite b) = fl (a + b)"
| "fadd NaN y = NaN"
| "fadd x NaN = NaN"
| "fadd PInf NInf = NaN"
| "fadd NInf PInf = NaN"
| "fadd PInf y = PInf"
| "fadd NInf y = NInf"
| "fadd x PInf = PInf"
| "fadd x NInf = NInf"

definition fsub :: "pyfloat \<Rightarrow> pyfloat \<Rightarrow> pyfloat" where
  "fsub x y = fadd x (fneg y)"

fun fmul :: "pyfloat \<Rightarrow> pyfloat \<Rightarrow> pyfloat" where
  "fmul (Finite a) (Finite b) = fl (a * b)"
| "fmul NaN y = NaN"
| "fmul x NaN = NaN"
| "fmul x y =
     (if x = Finite 0 \<or> y = Finite 0 then NaN
      else if is_neg x = is_neg y then PInf else NInf)"

text \<open>Python's \<^verbatim>\<open>/\<close> on floats raises on a zero divisor and is the IEEE division otherwise.\<close>

fun float_div :: "pyfloat \<Rightarrow> pyfloat \<Rightarrow> error + pyfloat" where
  "float_div x (Finite b) =
     (if b = 0 then Inl ZeroDivisionError
      else case x of
        Finite a \<Rightarrow> Inr (fl (a / b))
      | NaN \<Rightarrow> Inr NaN
      | _ \<Rightarrow> Inr (if is_neg x = (b < 0) then PInf else NInf))"
| "float_div x NaN = Inr NaN"
| "float_div (Finite a) y = Inr (Finite 0)"
| "float_div x y = Inr NaN"

text \<open>
  The conversion of a Python \<^verbatim>\<open>int\<close> to a float rounds correctly and raises
  \<^verbatim>\<open>OverflowError\<close> when the integer is too large.
\<close>

definition int_to_float :: "int \<Rightarrow> error + rat" where
  "int_to_float n = (case fl (of_int n) of Finite q \<Rightarrow> Inr q | _ \<Rightarrow> Inl OverflowError)"

text \<open>
  \<^verbatim>\<open>v ** w\<close> for a float \<open>v\<close> and an \<^verbatim>\<open>int\<close> \<open>w\<close>, after CPython's \<^verbatim>\<open>float_pow\<close>: the exponent
  is converted to a float, the special cases are decided by the interpreter in the order
  below, and the platform's \<^verbatim>\<open>pow\<close> is called on a finite positive base other than 1 and a
  finite exponent other than 0, a negative base being negated first and the sign restored
  for an odd exponent. The platform's \<^verbatim>\<open>pow\<close> is taken to be correctly rounded; its overflow
  is reported as \<^verbatim>\<open>OverflowError\<close>, its underflow is silent.
\<close>

definition libm_pow :: "rat \<Rightarrow> int \<Rightarrow> error + pyfloat" where
  "libm_pow b n =
     (case fl (if 0 \<le> n then b ^ nat n else 1 / b ^ nat (- n)) of
        Finite q \<Rightarrow> Inr (Finite q)
      | _ \<Rightarrow> Inl OverflowError)"

definition float_pow :: "pyfloat \<Rightarrow> int \<Rightarrow> error + pyfloat" where
  "float_pow v w =
     (case int_to_float w of
        Inl e \<Rightarrow> Inl e
      | Inr iw \<Rightarrow>
          if iw = 0 then Inr (Finite 1)
          else case v of
            NaN \<Rightarrow> Inr NaN
          | PInf \<Rightarrow> Inr (if 0 < iw then PInf else Finite 0)
          | NInf \<Rightarrow> Inr (if 0 < iw then (if odd \<lfloor>iw\<rfloor> then NInf else PInf) else Finite 0)
          | Finite iv \<Rightarrow>
              if iv = 0 then (if iw < 0 then Inl ZeroDivisionError else Inr (Finite 0))
              else if \<bar>iv\<bar> = 1 then Inr (Finite (if iv < 0 \<and> odd \<lfloor>iw\<rfloor> then - 1 else 1))
              else case libm_pow \<bar>iv\<bar> \<lfloor>iw\<rfloor> of
                Inl e \<Rightarrow> Inl e
              | Inr ix \<Rightarrow> Inr (if iv < 0 \<and> odd \<lfloor>iw\<rfloor> then fneg ix else ix))"

text \<open>
  \<^verbatim>\<open>round(x, 2)\<close> on a float: the exact value of \<open>x\<close> is rounded to two decimal places, ties
  to the even digit, and the decimal result is converted back to the nearest float.
  Infinities and NaN round to themselves.
\<close>

fun round2 :: "pyfloat \<Rightarrow> pyfloat" where
  "round2 (Finite q) = fl (of_int (round_half_even (q * 100)) / 100)"
| "round2 x = x"

text \<open>A decimal literal of the source or of a test denotes the nearest float.\<close>

definition lit :: "rat \<Rightarrow> pyfloat" where
  "lit q = fl q"

text \<open>Python's \<^verbatim>\<open>==\<close> on floats: NaN is equal to nothing.\<close>

definition feq :: "pyfloat \<Rightarrow> pyfloat \<Rightarrow> bool" where
  "feq x y = (x \<noteq> NaN \<and> x = y)"

section \<open>The amortization engine (api/enums.py, api/utils.py)\<close>

datatype PaymentFrequency =
  DAILY | BIWEEKLY | WEEKLY | SEMIMONTHLY | MONTHLY | QUARTERLY | SEMIYEARLY | YEARLY

fun frequency_value :: "PaymentFrequency \<Rightarrow> int" where
  "frequency_value DAILY = 365"
| "frequency_value BIWEEKLY = 104"
| "frequency_value WEEKLY = 52"
| "frequency_value SEMIMONTHLY = 24"
| "frequency_value MONTHLY = 12"
| "frequency_value QUARTERLY = 4"
| "frequency_value SEMIYEARLY = 2"
| "frequency_value YEARLY = 1"

definition adjusted_interest :: "pyfloat \<Rightarrow> PaymentFrequency \<Rightarrow> error + pyfloat" where
  "adjusted_interest interest_rate payment_frequency =
     float_div interest_rate (Finite (of_int (frequency_value payment_frequency)))"

definition calculate_amortization_amount ::
  "pyfloat \<Rightarrow> pyfloat \<Rightarrow> int \<Rightarrow> PaymentFrequency \<Rightarrow> error + pyfloat" where
  "calculate_amortization_amount principal' interest_rate period payment_frequency =
     (case adjusted_interest interest_rate payment_frequency of
        Inl e \<Rightarrow> Inl e
      | Inr adj \<Rightarrow>
          (case float_pow (fadd (Finite 1) adj) period of
             Inl e \<Rightarrow> Inl e
           | Inr x \<Rightarrow>
               (case float_div (fmul principal' (fmul adj x)) (fsub x (Finite 1)) of
                  Inl e \<Rightarrow> Inl e
                | Inr q \<Rightarrow> Inr (round2 q))))"

text \<open>A row is the tuple the generator yields: number, amount, interest, principal, balance.\<close>

type_synonym row = "int \<times> pyfloat \<times> pyfloat \<times> pyfloat \<times> pyfloat"

definition row_number :: "row \<Rightarrow> int" where
  "row_number r = fst r"

definition row_amount :: "row \<Rightarrow> pyfloat" where
  "row_amount r = fst (snd r)"

definition row_interest :: "row \<Rightarrow> pyfloat" where
  "row_interest r = fst (snd (snd r))"

definition row_principal :: "row \<Rightarrow> pyfloat" where
  "row_principal r = fst (snd (snd (snd r)))"

definition row_balance :: "row \<Rightarrow> pyfloat" where
  "row_balance r = snd (snd (snd (snd r)))"

text \<open>
  The body of the \<^verbatim>\<open>for number in range(1, period)\<close> loop, run over the numbers of the
  range: the rows it yields and the balance it leaves.
\<close>

fun schedule_loop :: "pyfloat \<Rightarrow> pyfloat \<Rightarrow> pyfloat \<Rightarrow> int list \<Rightarrow> row list \<times> pyfloat" where
  "schedule_loop amortization_amount adj balance [] = ([], balance)"
| "schedule_loop amortization_amount adj balance (number # ns) =
     (let interest = round2 (fmul balance adj);
          principal_payment = fsub amortization_amount interest;
          balance' = fsub balance principal_payment;
          (rows, b) = schedule_loop amortization_amount adj balance' ns
      in ((number, amortization_amount, interest, principal_payment, balance') # rows, b))"

text \<open>
  The generator, run to its end as \<^verbatim>\<open>list(amortization_schedule(...))\<close> does. Both
  computations that can raise come before the first \<^verbatim>\<open>yield\<close>, so the run either raises
  without a row or returns all rows.
\<close>

definition amortization_schedule ::
  "pyfloat \<Rightarrow> pyfloat \<Rightarrow> int \<Rightarrow> PaymentFrequency \<Rightarrow> error + row list" where
  "amortization_schedule principal' interest_rate period payment_frequency =
     (case calculate_amortization_amount principal' interest_rate period payment_frequency of
        Inl e \<Rightarrow> Inl e
      | Inr amortization_amount \<Rightarrow>
          (case adjusted_interest interest_rate payment_frequency of
             Inl e \<Rightarrow> Inl e
           | Inr adj \<Rightarrow>
               (let (rows, balance) =
                      schedule_loop amortization_amount adj principal' [1 .. period - 1];
                    interest = round2 (fmul balance adj)
                in Inr (rows @ [(period, fadd balance interest, interest, balance, Finite 0)]))))"

section \<open>The loan summary (api/crud.py)\<close>

record Loan =
  amount :: pyfloat
  annual_interest_rate :: pyfloat
  loan_term_months :: int
  frequency :: PaymentFrequency

record LoanSummary =
  current_principal_balance :: pyfloat
  aggregate_principal_paid :: pyfloat
  aggregate_interest_paid :: pyfloat

text \<open>The slice \<^verbatim>\<open>xs[:m]\<close>: a negative \<open>m\<close> counts from the end.\<close>

definition slice_to :: "'a list \<Rightarrow> int \<Rightarrow> 'a list" where
  "slice_to xs m = (if 0 \<le> m then take (nat m) xs else take (length xs - nat (- m)) xs)"

fun summary_loop :: "pyfloat \<times> pyfloat \<times> pyfloat \<Rightarrow> row list \<Rightarrow> pyfloat \<times> pyfloat \<times> pyfloat" where
  "summary_loop acc [] = acc"
| "summary_loop (cpb, app, aip) (month_data # rest) =
     summary_loop (row_balance month_data,
                   fadd app (row_principal month_data),
                   fadd aip (row_interest month_data)) rest"

definition loan_schedule_of :: "Loan \<Rightarrow> error + row list" where
  "loan_schedule_of db_loan =
     (case float_div (annual_interest_rate db_loan) (Finite 100) of
        Inl e \<Rightarrow> Inl e
      | Inr interest_rate \<Rightarrow>
          amortization_schedule (amount db_loan) interest_rate
            (loan_term_months db_loan) (frequency db_loan))"

definition get_loan_summary :: "(int \<rightharpoonup> Loan) \<Rightarrow> int \<Rightarrow> int \<Rightarrow> error + LoanSummary" where
  "get_loan_summary db loan_id month =
     (case db loan_id of
        None \<Rightarrow> Inl (HTTPException 404)
      | Some db_loan \<Rightarrow>
          (case loan_schedule_of db_loan of
             Inl e \<Rightarrow> Inl e
           | Inr amortization_data \<Rightarrow>
               (case summary_loop (Finite 0, Finite 0, Finite 0) (slice_to amortization_data month) of
                  (cpb, app, aip) \<Rightarrow>
                    Inr \<lparr>current_principal_balance = round2 cpb,
                         aggregate_principal_paid = round2 app,
                         aggregate_interest_paid = round2 aip\<rparr>)))"

section \<open>Notions used in the statements\<close>

text \<open>Python's \<^verbatim>\<open><=\<close> and \<^verbatim>\<open><\<close> on floats: NaN compares false with everything.\<close>

fun fle :: "pyfloat \<Rightarrow> pyfloat \<Rightarrow> bool" where
  "fle NaN y = False"
| "fle x NaN = False"
| "fle NInf y = True"
| "fle x PInf = True"
| "fle (Finite a) (Finite b) = (a \<le> b)"
| "fle x y = False"

fun flt :: "pyfloat \<Rightarrow> pyfloat \<Rightarrow> bool" where
  "flt NaN y = False"
| "flt x NaN = False"
| "flt (Finite a) (Finite b) = (a < b)"
| "flt PInf y = False"
| "flt x NInf = False"
| "flt x y = True"

text \<open>\<open>finite_le x y\<close>: both are finite and \<open>x\<close> is at most \<open>y\<close>.\<close>

fun finite_le :: "pyfloat \<Rightarrow> pyfloat \<Rightarrow> bool" where
  "finite_le (Finite a) (Finite b) = (a \<le> b)"
| "finite_le x y = False"

text \<open>The exponent and the significand that \<open>fl\<close> computes.\<close>

definition fexp :: "rat \<Rightarrow> int" where
  "fexp q = max (ilog2 \<bar>q\<bar>) (- 1022)"

definition fmant :: "rat \<Rightarrow> int" where
  "fmant q = round_half_even (q / pow2 (fexp q - 52))"

text \<open>A sequence of balances that never goes up from one element to the next.\<close>

fun non_increasing :: "pyfloat list \<Rightarrow> bool" where
  "non_increasing [] = True"
| "non_increasing [x] = True"
| "non_increasing (x # y # zs) = (fle y x \<and> non_increasing (y # zs))"

text \<open>A sequence of balances that goes strictly down from every element other than zero.\<close>

fun decreasing_until_zero :: "pyfloat list \<Rightarrow> bool" where
  "decreasing_until_zero [] = True"
| "decreasing_until_zero [x] = True"
| "decreasing_until_zero (x # y # zs) = ((x = Finite 0 \<or> flt y x) \<and> decreasing_until_zero (y # zs))"

text \<open>A balance the loop can hold: a float, or minus infinity after an overflow.\<close>

fun okbal :: "pyfloat \<Rightarrow> bool" where
  "okbal (Finite b) = (fl b = Finite b)"
| "okbal NInf = True"
| "okbal x = False"

text \<open>The balance that remains after the first \<open>k\<close> rows of a schedule.\<close>

definition balance_after :: "pyfloat \<Rightarrow> row list \<Rightarrow> nat \<Rightarrow> pyfloat" where
  "balance_after principal' rows k = (if k = 0 then principal' else row_balance (rows ! (k - 1)))"

text \<open>The payment of a row is the sum of its interest and its principal, by Python's \<^verbatim>\<open>==\<close>.\<close>

definition row_sums_up :: "row \<Rightarrow> bool" where
  "row_sums_up r = feq (row_amount r) (fadd (row_interest r) (row_principal r))"

text \<open>The remaining balances of the rows of a run, none when the run raises.\<close>

definition balances :: "error + row list \<Rightarrow> pyfloat list" where
  "balances res = (case res of Inl e \<Rightarrow> [] | Inr rows \<Rightarrow> map row_balance rows)"

section \<open>Properties of the rounding\<close>

lemma pow2_powi: "pow2 e = 2 powi e"
  by (simp add: pow2_def power_int_def inverse_eq_divide power_one_over)

lemma pow2_pos: "0 < pow2 e"
  by (simp add: pow2_def)

lemma pow2_less_iff: "pow2 a < pow2 b \<longleftrightarrow> a < b"
proof
  assume "pow2 a < pow2 b"
  show "a < b"
  proof (rule ccontr)
    assume "\<not> a < b"
    then have "b \<le> a" by simp
    then have "pow2 b \<le> pow2 a"
      unfolding pow2_powi by (intro power_int_increasing) simp_all
    with \<open>pow2 a < pow2 b\<close> show False by simp
  qed
next
  assume "a < b"
  then show "pow2 a < pow2 b"
    unfolding pow2_powi by (intro power_int_strict_increasing) simp_all
qed

lemma pow2_le_iff: "pow2 a \<le> pow2 b \<longleftrightarrow> a \<le> b"
  using pow2_less_iff [of b a] by (auto simp: not_less [symmetric])

lemma pow2_add: "pow2 (a + b) = pow2 a * pow2 b"
  unfolding pow2_powi by (simp add: power_int_add)

lemma pow2_nat: "0 \<le> e \<Longrightarrow> pow2 e = 2 ^ nat e"
  by (simp add: pow2_def)

lemma ilog2_bounds:
  assumes "0 < q"
  shows "pow2 (ilog2 q) \<le> q" and "q < pow2 (ilog2 q + 1)"
proof -
  have "pow2 (ilog2 q) \<le> q \<and> q < pow2 (ilog2 q + 1)"
  proof (cases "1 \<le> q")
    case True
    define n where "n = \<lfloor>q\<rfloor>"
    have n: "1 \<le> n" using True by (simp add: n_def le_floor_iff)
    then have b: "1 \<le> bitlen n" by (simp add: bitlen_alt_def)
    from bitlen_bounds [of n] n
    have lo: "2 ^ nat (bitlen n - 1) \<le> n" and hi: "n < 2 ^ nat (bitlen n)" by simp_all
    have "rat_of_int (2 ^ nat (bitlen n - 1)) \<le> of_int n" using lo by (simp only: of_int_le_iff)
    also have "\<dots> \<le> q" by (simp add: n_def)
    finally have 1: "pow2 (bitlen n - 1) \<le> q" using b by (simp add: pow2_nat)
    have "n + 1 \<le> 2 ^ nat (bitlen n)" using hi by simp
    then have "rat_of_int (n + 1) \<le> of_int (2 ^ nat (bitlen n))" by (simp only: of_int_le_iff)
    moreover have "q < of_int (n + 1)" using floor_correct [of q] by (simp add: n_def)
    ultimately have 2: "q < pow2 (bitlen n)" using b by (simp add: pow2_nat)
    show ?thesis using 1 2 True by (simp add: ilog2_def n_def)
  next
    case False
    define c where "c = \<lceil>1 / q\<rceil>"
    define k where "k = bitlen (c - 1)"
    have q1: "1 < 1 / q" using False assms by simp
    then have c: "2 \<le> c" unfolding c_def by (simp add: le_ceiling_iff)
    then have k: "1 \<le> k" by (simp add: k_def bitlen_alt_def)
    from bitlen_bounds [of "c - 1"] c
    have lo: "2 ^ nat (k - 1) \<le> c - 1" and hi: "c - 1 < 2 ^ nat k" by (simp_all add: k_def)
    have "rat_of_int (2 ^ nat (k - 1)) \<le> of_int (c - 1)" using lo by (simp only: of_int_le_iff)
    also have "\<dots> < 1 / q" using ceiling_correct [of "1 / q"] by (simp add: c_def)
    finally have "2 ^ nat (k - 1) < 1 / q" by simp
    then have "q * 2 ^ nat (k - 1) < 1" using assms by (simp add: field_simps)
    then have "q < 1 / 2 ^ nat (k - 1)" by (simp add: field_simps)
    moreover have "pow2 (- k + 1) = 1 / 2 ^ nat (k - 1)"
      using k by (cases "k = 1") (simp_all add: pow2_def)
    ultimately have 2: "q < pow2 (- k + 1)" by simp
    have "c \<le> 2 ^ nat k" using hi by simp
    then have "rat_of_int c \<le> of_int (2 ^ nat k)" by (simp only: of_int_le_iff)
    then have "rat_of_int c \<le> 2 ^ nat k" by simp
    moreover have "1 / q \<le> of_int c" by (simp add: c_def)
    ultimately have "1 / q \<le> 2 ^ nat k" by linarith
    then have "1 \<le> q * 2 ^ nat k" using assms by (simp add: field_simps)
    then have "1 / 2 ^ nat k \<le> q" by (simp add: field_simps)
    moreover have "pow2 (- k) = 1 / 2 ^ nat k" using k by (simp add: pow2_def)
    ultimately have 1: "pow2 (- k) \<le> q" by simp
    show ?thesis using 1 2 False by (simp add: ilog2_def c_def k_def)
  qed
  then show "pow2 (ilog2 q) \<le> q" and "q < pow2 (ilog2 q + 1)" by simp_all
qed

lemma ilog2_unique:
  assumes "pow2 e \<le> q" and "q < pow2 (e + 1)"
  shows "ilog2 q = e"
proof -
  have q: "0 < q" using pow2_pos [of e] assms(1) by simp
  from ilog2_bounds [OF q] assms
  have "pow2 e < pow2 (ilog2 q + 1)" and "pow2 (ilog2 q) < pow2 (e + 1)" by simp_all
  then show ?thesis by (simp add: pow2_less_iff)
qed

lemma round_half_even_unique:
  assumes "\<bar>x - of_int m\<bar> < 1 / 2"
  shows "round_half_even x = m"
proof -
  consider "of_int m \<le> x" | "x < of_int m" by linarith
  then show ?thesis
  proof cases
    case 1
    then have f: "\<lfloor>x\<rfloor> = m" using assms by (intro floor_unique) linarith+
    show ?thesis using assms 1 by (simp add: round_half_even_def f Let_def)
  next
    case 2
    then have f: "\<lfloor>x\<rfloor> = m - 1" using assms by (intro floor_unique) (simp, linarith)+
    show ?thesis using assms 2 by (simp add: round_half_even_def f Let_def)
  qed
qed

lemma round_half_even_of_int [simp]: "round_half_even (of_int m) = m"
  by (rule round_half_even_unique) simp

lemma round_half_even_tie:
  assumes "x = of_int m + 1 / 2"
  shows "round_half_even x = (if even m then m else m + 1)"
proof -
  have f: "\<lfloor>x\<rfloor> = m" using assms by (intro floor_unique) simp_all
  show ?thesis unfolding round_half_even_def Let_def f using assms by simp
qed

lemma round_half_even_le_int:
  assumes "x \<le> of_int k"
  shows "round_half_even x \<le> k"
proof (cases "x = of_int k")
  case True
  then show ?thesis by simp
next
  case False
  then have "x < of_int k" using assms by simp
  then have "\<lfloor>x\<rfloor> < k" by (simp add: floor_less_iff)
  then show ?thesis by (auto simp: round_half_even_def Let_def)
qed

lemma round_half_even_ge_int:
  assumes "of_int k \<le> x"
  shows "k \<le> round_half_even x"
proof -
  have "k \<le> \<lfloor>x\<rfloor>" using assms by (simp add: le_floor_iff)
  then show ?thesis by (auto simp: round_half_even_def Let_def)
qed

lemma fl_eqI:
  assumes e: "- 1022 \<le> e"
    and lo: "pow2 e \<le> \<bar>q\<bar>" and hi: "\<bar>q\<bar> < pow2 (e + 1)"
    and m: "round_half_even (q / pow2 (e - 52)) = m"
    and r: "r = of_int m * pow2 (e - 52)"
    and fin: "\<bar>r\<bar> < 2 ^ 1024"
  shows "fl q = Finite r"
proof -
  have "q \<noteq> 0" using lo pow2_pos [of e] by auto
  moreover have "ilog2 \<bar>q\<bar> = e" using lo hi by (rule ilog2_unique)
  ultimately show ?thesis using e m r fin
    by (simp add: fl_def Let_def max_def)
qed

lemma fadd_FiniteI: "fl (a + b) = Finite r \<Longrightarrow> fadd (Finite a) (Finite b) = Finite r"
  by simp

lemma fsub_FiniteI: "fl (a - b) = Finite r \<Longrightarrow> fsub (Finite a) (Finite b) = Finite r"
  by (simp add: fsub_def)

lemma fmul_FiniteI: "fl (a * b) = Finite r \<Longrightarrow> fmul (Finite a) (Finite b) = Finite r"
  by simp

lemma float_div_FiniteI:
  "fl (a / b) = Finite r \<Longrightarrow> b \<noteq> 0 \<Longrightarrow> float_div (Finite a) (Finite b) = Inr (Finite r)"
  by simp

lemma round2_FiniteI:
  "round_half_even (a * 100) = n \<Longrightarrow> fl (of_int n / 100) = Finite r \<Longrightarrow> round2 (Finite a) = Finite r"
  by simp

lemma float_pow_posI:
  assumes "fl (of_int w) = Finite (of_int w)" and "0 < w" and "0 < iv" and "iv \<noteq> 1"
    and "fl (iv ^ nat w) = Finite r"
  shows "float_pow (Finite iv) w = Inr (Finite r)"
  using assms by (simp add: float_pow_def int_to_float_def libm_pow_def)

lemma float_pow_negI:
  assumes "fl (of_int w) = Finite (of_int w)" and "w < 0" and "0 < iv" and "iv \<noteq> 1"
    and "fl (1 / iv ^ nat (- w)) = Finite r"
  shows "float_pow (Finite iv) w = Inr (Finite r)"
  using assms by (simp add: float_pow_def int_to_float_def libm_pow_def)

lemma round_half_even_floor: "\<lfloor>x\<rfloor> \<le> round_half_even x" "round_half_even x \<le> \<lfloor>x\<rfloor> + 1"
  by (simp_all add: round_half_even_def Let_def)

lemma round_half_even_mono:
  assumes "x \<le> y"
  shows "round_half_even x \<le> round_half_even y"
proof (cases "\<lfloor>x\<rfloor> < \<lfloor>y\<rfloor>")
  case True
  then show ?thesis
    using round_half_even_floor(2) [of x] round_half_even_floor(1) [of y] by linarith
next
  case False
  then have "\<lfloor>x\<rfloor> = \<lfloor>y\<rfloor>" using floor_mono [OF assms] by simp
  then show ?thesis using assms by (auto simp: round_half_even_def Let_def)
qed

lemma round_half_even_minus: "round_half_even (- x) = - round_half_even x"
proof -
  define f where "f = \<lfloor>x\<rfloor>"
  define d where "d = x - of_int f"
  have d: "0 \<le> d" "d < 1" unfolding d_def f_def by linarith+
  consider "d < 1 / 2" | "d = 1 / 2" | "1 / 2 < d" by linarith
  then show ?thesis
  proof cases
    case 1
    then have "\<bar>x - of_int f\<bar> < 1 / 2" "\<bar>- x - of_int (- f)\<bar> < 1 / 2"
      using d by (simp_all add: d_def)
    then show ?thesis by (simp add: round_half_even_unique)
  next
    case 2
    then have x: "x = of_int f + 1 / 2" "- x = of_int (- f - 1) + 1 / 2"
      by (simp_all add: d_def)
    show ?thesis
      unfolding round_half_even_tie [OF x(1)] round_half_even_tie [OF x(2)] by simp
  next
    case 3
    then have a: "\<bar>x - of_int (f + 1)\<bar> < 1 / 2" and b: "\<bar>- x - of_int (- (f + 1))\<bar> < 1 / 2"
      using d by (simp_all add: d_def)
    have "round_half_even x = f + 1" using a by (rule round_half_even_unique)
    moreover have "round_half_even (- x) = - (f + 1)" using b by (rule round_half_even_unique)
    ultimately show ?thesis by simp
  qed
qed

lemma fl_minus: "fl (- q) = fneg (fl q)"
  by (simp add: fl_def Let_def round_half_even_minus)

lemma ilog2_mono:
  assumes "0 < a" and "a \<le> b"
  shows "ilog2 a \<le> ilog2 b"
proof -
  have "0 < b" using assms by simp
  from ilog2_bounds(1) [OF assms(1)] ilog2_bounds(2) [OF this] assms(2)
  have "pow2 (ilog2 a) < pow2 (ilog2 b + 1)" by simp
  then show ?thesis by (simp add: pow2_less_iff)
qed

text \<open>The rounding of a positive rational, spelled out.\<close>

lemma fl_alt:
  "fl q = (if q = 0 then Finite 0
           else if 2 ^ 1024 \<le> \<bar>of_int (fmant q) * pow2 (fexp q - 52)\<bar>
                then (if 0 < q then PInf else NInf)
                else Finite (of_int (fmant q) * pow2 (fexp q - 52)))"
  by (simp add: fl_def Let_def fexp_def fmant_def)

lemma pow2_53: "pow2 (e + 1) = 2 ^ 53 * pow2 (e - 52)"
proof -
  have "pow2 (e + 1) = pow2 (53 + (e - 52))" by (rule arg_cong [where f = pow2]) simp
  also have "\<dots> = pow2 53 * pow2 (e - 52)" by (rule pow2_add)
  finally show ?thesis by (simp add: pow2_def)
qed

lemma pow2_52: "pow2 e = 2 ^ 52 * pow2 (e - 52)"
proof -
  have "pow2 e = pow2 (52 + (e - 52))" by (rule arg_cong [where f = pow2]) simp
  also have "\<dots> = pow2 52 * pow2 (e - 52)" by (rule pow2_add)
  finally show ?thesis by (simp add: pow2_def)
qed

lemma fmant_bounds:
  assumes "0 < q"
  shows "0 \<le> fmant q" and "fmant q \<le> 2 ^ 53"
    and "- 1022 \<le> ilog2 q \<Longrightarrow> 2 ^ 52 \<le> fmant q"
proof -
  let ?u = "pow2 (fexp q - 52)"
  have u: "0 < ?u" by (rule pow2_pos)
  have "rat_of_int 0 \<le> q / ?u" using assms u by simp
  then show "0 \<le> fmant q" unfolding fmant_def by (rule round_half_even_ge_int)
  have "ilog2 q + 1 \<le> fexp q + 1" using assms by (simp add: fexp_def)
  then have "pow2 (ilog2 q + 1) \<le> pow2 (fexp q + 1)" by (simp only: pow2_le_iff)
  with ilog2_bounds(2) [OF assms] have "q < pow2 (fexp q + 1)" by simp
  then have "q < 2 ^ 53 * ?u" by (simp only: pow2_53)
  then have "q / ?u \<le> 2 ^ 53" using u by (simp add: field_simps)
  then have "q / ?u \<le> rat_of_int (2 ^ 53)" by simp
  then show "fmant q \<le> 2 ^ 53" unfolding fmant_def by (rule round_half_even_le_int)
  assume n: "- 1022 \<le> ilog2 q"
  then have e: "fexp q = ilog2 q" using assms by (simp add: fexp_def)
  have "pow2 (fexp q) \<le> q" using ilog2_bounds(1) [OF assms] e by simp
  then have "2 ^ 52 * ?u \<le> q" by (simp only: pow2_52 [symmetric])
  then have "2 ^ 52 \<le> q / ?u" using u by (simp add: field_simps)
  then have "rat_of_int (2 ^ 52) \<le> q / ?u" by simp
  then show "2 ^ 52 \<le> fmant q" unfolding fmant_def by (rule round_half_even_ge_int)
qed

lemma fexp_mono:
  assumes "0 < a" and "a \<le> b"
  shows "fexp a \<le> fexp b"
  using ilog2_mono [OF assms] assms by (simp add: fexp_def)

lemma fl_mono_pos_aux:
  assumes "0 < a" and "a \<le> b"
  shows "rat_of_int (fmant a) * pow2 (fexp a - 52) \<le> of_int (fmant b) * pow2 (fexp b - 52)"
proof (cases "fexp a = fexp b")
  case True
  have "a / pow2 (fexp b - 52) \<le> b / pow2 (fexp b - 52)"
    using assms pow2_pos [of "fexp b - 52"] by (simp add: divide_right_mono)
  then have "fmant a \<le> fmant b"
    unfolding fmant_def True by (rule round_half_even_mono)
  then have "rat_of_int (fmant a) \<le> of_int (fmant b)" by simp
  then show ?thesis
    unfolding True using pow2_pos [of "fexp b - 52"] by (simp add: mult_right_mono)
next
  case False
  have b: "0 < b" using assms by simp
  from False fexp_mono [OF assms] have lt: "fexp a < fexp b" by simp
  then have "- 1022 < fexp b" using assms by (simp add: fexp_def)
  then have nb: "- 1022 \<le> ilog2 b" using b by (simp add: fexp_def)
  have "rat_of_int (fmant a) \<le> of_int (2 ^ 53)"
    using fmant_bounds(2) [OF assms(1)] by (simp only: of_int_le_iff)
  then have "rat_of_int (fmant a) * pow2 (fexp a - 52) \<le> 2 ^ 53 * pow2 (fexp a - 52)"
    using pow2_pos [of "fexp a - 52"] by (simp add: mult_right_mono)
  also have "\<dots> = pow2 (fexp a + 1)" by (simp only: pow2_53)
  also have "\<dots> \<le> pow2 (fexp b)" using lt by (simp add: pow2_le_iff)
  also have "\<dots> = 2 ^ 52 * pow2 (fexp b - 52)" by (rule pow2_52)
  also have "\<dots> \<le> rat_of_int (fmant b) * pow2 (fexp b - 52)"
  proof -
    have "rat_of_int (2 ^ 52) \<le> of_int (fmant b)"
      using fmant_bounds(3) [OF b nb] by (simp only: of_int_le_iff)
    then show ?thesis using pow2_pos [of "fexp b - 52"] by (simp add: mult_right_mono)
  qed
  finally show ?thesis .
qed

lemma fl_pos_cases:
  assumes "0 < q"
  shows "fl q = PInf \<or> (\<exists>r. fl q = Finite r \<and> 0 \<le> r)"
proof -
  have "0 \<le> rat_of_int (fmant q) * pow2 (fexp q - 52)"
    using fmant_bounds(1) [OF assms] pow2_pos [of "fexp q - 52"] by simp
  then show ?thesis using assms by (simp add: fl_alt)
qed

lemma fl_mono_pos:
  assumes "0 < a" and "a \<le> b"
  shows "fle (fl a) (fl b)"
proof -
  have b: "0 < b" using assms by simp
  have "0 \<le> rat_of_int (fmant a) * pow2 (fexp a - 52)"
    using fmant_bounds(1) [OF assms(1)] pow2_pos [of "fexp a - 52"] by simp
  moreover have "0 \<le> rat_of_int (fmant b) * pow2 (fexp b - 52)"
    using fmant_bounds(1) [OF b] pow2_pos [of "fexp b - 52"] by simp
  ultimately show ?thesis
    using fl_mono_pos_aux [OF assms] assms b by (simp add: fl_alt)
qed

lemma fle_fneg: "fle (fneg x) (fneg y) = fle y x"
  by (cases x; cases y) simp_all

lemma fl_mono:
  assumes "a \<le> b"
  shows "fle (fl a) (fl b)"
proof -
  consider "0 < a" | "a \<le> 0" "0 < b" | "b < 0" | "a = 0" "b = 0" | "a < 0" "b = 0"
    using assms by linarith
  then show ?thesis
  proof cases
    case 1
    then show ?thesis using assms by (rule fl_mono_pos)
  next
    case 2
    have "fle (fl a) (Finite 0)"
    proof (cases "a = 0")
      case True
      then show ?thesis by (simp add: fl_def)
    next
      case False
      then have "0 < - a" using 2 by simp
      from fl_pos_cases [OF this] show ?thesis by (auto simp: fl_minus, (cases "fl a"; simp)+)
    qed
    moreover from fl_pos_cases [OF 2(2)] have "fle (Finite 0) (fl b)" by auto
    ultimately show ?thesis by (cases "fl a"; cases "fl b") auto
  next
    case 3
    then have "0 < - b" "- b \<le> - a" using assms by simp_all
    then have "fle (fl (- b)) (fl (- a))" by (rule fl_mono_pos)
    then show ?thesis by (simp add: fl_minus fle_fneg)
  next
    case 4
    then show ?thesis by (simp add: fl_def)
  next
    case 5
    then have "0 < - a" by simp
    from fl_pos_cases [OF this] 5 show ?thesis
      by (auto simp: fl_minus fl_def [of 0], (cases "fl a"; simp)+)
  qed
qed

lemma fl_idem_pos:
  assumes q: "0 < q" and r: "fl q = Finite r"
  shows "fl r = Finite r"
proof -
  define e where "e = fexp q"
  define u where "u = pow2 (e - 52)"
  define m where "m = fmant q"
  have u: "0 < u" unfolding u_def by (rule pow2_pos)
  have e: "- 1022 \<le> e" by (simp add: e_def fexp_def)
  have p52: "pow2 e = 2 ^ 52 * u" unfolding u_def by (rule pow2_52)
  have p53: "pow2 (e + 1) = 2 ^ 53 * u" unfolding u_def by (rule pow2_53)
  have m: "0 \<le> m" "m \<le> 2 ^ 53" unfolding m_def using fmant_bounds [OF q] by simp_all
  have req: "r = of_int m * u" and rfin: "\<bar>r\<bar> < 2 ^ 1024"
    using q r by (auto simp: fl_alt e_def u_def m_def split: if_splits)
  consider "m = 0" | "0 < m" "m < 2 ^ 52" | "2 ^ 52 \<le> m" "m < 2 ^ 53" | "m = 2 ^ 53"
    using m by linarith
  then show ?thesis
  proof cases
    case 1
    then show ?thesis by (simp add: req fl_def)
  next
    case 2
    have "\<not> - 1022 \<le> ilog2 q"
      using fmant_bounds(3) [OF q] 2 by (auto simp: m_def)
    then have e1: "e = - 1022" using q by (simp add: e_def fexp_def)
    have rpos: "0 < r" using 2 u by (simp add: req)
    have "rat_of_int m < of_int (2 ^ 52)" using 2 by (simp only: of_int_less_iff)
    then have "r < 2 ^ 52 * u" using u by (simp add: req)
    then have "r < pow2 e" by (simp only: p52)
    with ilog2_bounds(1) [OF rpos] have "pow2 (ilog2 r) < pow2 e" by simp
    then have "ilog2 r < e" by (simp add: pow2_less_iff)
    then have er: "fexp r = e" using rpos e1 by (simp add: fexp_def)
    have "r / u = of_int m" using u by (simp add: req)
    then have mr: "fmant r = m" by (simp add: fmant_def er u_def [symmetric])
    show ?thesis using rpos rfin by (simp add: fl_alt er mr u_def [symmetric] req [symmetric])
  next
    case 3
    have "rat_of_int (2 ^ 52) \<le> of_int m" "rat_of_int m < of_int (2 ^ 53)"
      using 3 by (simp_all only: of_int_le_iff of_int_less_iff)
    then have "2 ^ 52 * u \<le> r" "r < 2 ^ 53 * u" using u by (simp_all add: req)
    then have lo: "pow2 e \<le> r" and hi: "r < pow2 (e + 1)"
      by (simp_all only: p52 p53)
    have rpos: "0 < r" using lo pow2_pos [of e] by simp
    have div: "r / pow2 (e - 52) = of_int m" using u by (simp add: req u_def)
    show ?thesis
    proof (rule fl_eqI [where e = e and m = m])
      show "- 1022 \<le> e" by (rule e)
      show "pow2 e \<le> \<bar>r\<bar>" using rpos lo by simp
      show "\<bar>r\<bar> < pow2 (e + 1)" using rpos hi by simp
      show "round_half_even (r / pow2 (e - 52)) = m"
        unfolding div by (rule round_half_even_of_int)
      show "r = rat_of_int m * pow2 (e - 52)" by (simp add: req u_def)
      show "\<bar>r\<bar> < 2 ^ 1024" by (rule rfin)
    qed
  next
    case 4
    have r2: "r = pow2 (e + 1)" by (simp add: req 4 p53)
    have rpos: "0 < r" unfolding r2 by (rule pow2_pos)
    have u2: "pow2 (e + 1 - 52) = 2 * u"
    proof -
      have "pow2 (e + 1 - 52) = pow2 (1 + (e - 52))" by (rule arg_cong [where f = pow2]) simp
      also have "\<dots> = pow2 1 * pow2 (e - 52)" by (rule pow2_add)
      finally show ?thesis by (simp add: pow2_def u_def)
    qed
    have div: "r / pow2 (e + 1 - 52) = of_int (2 ^ 52)"
      unfolding u2 using u by (simp add: req 4)
    have lt: "r < pow2 (e + 1 + 1)" unfolding r2 by (simp add: pow2_less_iff)
    show ?thesis
    proof (rule fl_eqI [where e = "e + 1" and m = "2 ^ 52"])
      show "- 1022 \<le> e + 1" using e by simp
      show "pow2 (e + 1) \<le> \<bar>r\<bar>" using rpos by (simp add: r2)
      show "\<bar>r\<bar> < pow2 (e + 1 + 1)" using rpos lt by simp
      show "round_half_even (r / pow2 (e + 1 - 52)) = 2 ^ 52"
        unfolding div by (rule round_half_even_of_int)
      show "r = rat_of_int (2 ^ 52) * pow2 (e + 1 - 52)" unfolding u2 by (simp add: req 4)
      show "\<bar>r\<bar> < 2 ^ 1024" by (rule rfin)
    qed
  qed
qed

lemma fl_idem:
  assumes "fl q = Finite r"
  shows "fl r = Finite r"
proof -
  consider "q = 0" | "0 < q" | "q < 0" by linarith
  then show ?thesis
  proof cases
    case 1
    then show ?thesis using assms by (simp add: fl_def)
  next
    case 2
    then show ?thesis using assms by (rule fl_idem_pos)
  next
    case 3
    then have "0 < - q" by simp
    moreover have "fl (- q) = Finite (- r)" using assms by (simp add: fl_minus)
    ultimately have "fl (- r) = Finite (- r)" by (rule fl_idem_pos)
    then have "fneg (fl r) = Finite (- r)" by (simp add: fl_minus)
    then show ?thesis by (cases "fl r") simp_all
  qed
qed

section \<open>Properties of the engine\<close>

lemma balance_step:
  assumes "okbal x" and "finite_le i a"
  shows "okbal (fsub x (fsub a i)) \<and> fle (fsub x (fsub a i)) x"
proof -
  obtain a' i' where ai: "a = Finite a'" "i = Finite i'" "i' \<le> a'"
    using assms(2) by (cases i; cases a) simp_all
  have d: "fsub a i = fl (a' - i')" by (simp add: ai fsub_def)
  have "fle (fl 0) (fl (a' - i'))" using ai(3) by (intro fl_mono) simp
  then have "fle (Finite 0) (fl (a' - i'))" by (simp add: fl_def [of 0])
  then consider "fl (a' - i') = PInf" | p where "fl (a' - i') = Finite p" "0 \<le> p"
    by (cases "fl (a' - i')") simp_all
  then show ?thesis
  proof cases
    case 1
    show ?thesis unfolding d 1 using assms(1) by (cases x) (simp_all add: fsub_def)
  next
    case 2
    show ?thesis
    proof (cases x)
      case NInf
      then show ?thesis unfolding d 2 by (simp add: fsub_def)
    next
      case (Finite b)
      then have b: "fl b = Finite b" using assms(1) by simp
      have eq: "fsub (Finite b) (fsub a i) = fl (b - p)" unfolding d 2 by (simp add: fsub_def)
      have "fle (fl (b - p)) (fl b)" using 2(2) by (intro fl_mono) simp
      then have le: "fle (fl (b - p)) (Finite b)" by (simp only: b)
      consider "fl (b - p) = NInf" | r where "fl (b - p) = Finite r"
        using le by (cases "fl (b - p)") simp_all
      then show ?thesis
      proof cases
        case 1
        show ?thesis unfolding Finite eq 1 by simp
      next
        case 2
        have "fl r = Finite r" using 2 by (rule fl_idem)
        then show ?thesis using le unfolding Finite eq 2 by simp
      qed
    qed (use assms(1) in simp_all)
  qed
qed

lemma schedule_loop_non_increasing:
  assumes "okbal b"
    and "\<forall>r \<in> set (fst (schedule_loop amt adj b ns)). finite_le (row_interest r) (row_amount r)"
  shows "non_increasing (b # map row_balance (fst (schedule_loop amt adj b ns)))"
  using assms
proof (induction ns arbitrary: b)
  case Nil
  then show ?case by simp
next
  case (Cons n ns)
  define i where "i = round2 (fmul b adj)"
  define b' where "b' = fsub b (fsub amt i)"
  have fst_eq: "fst (schedule_loop amt adj b (n # ns)) =
      (n, amt, i, fsub amt i, b') # fst (schedule_loop amt adj b' ns)"
    by (simp add: i_def b'_def Let_def split: prod.splits)
  from Cons.prems(2) have le: "finite_le i amt"
    and rest: "\<forall>r \<in> set (fst (schedule_loop amt adj b' ns)). finite_le (row_interest r) (row_amount r)"
    unfolding fst_eq by (simp_all add: row_interest_def row_amount_def)
  from balance_step [OF Cons.prems(1) le]
  have ok: "okbal b'" and dec: "fle b' b" by (simp_all add: b'_def)
  have hd: "row_balance (n, amt, i, fsub amt i, b') = b'" by (simp add: row_balance_def)
  from Cons.IH [OF ok rest]
  have "non_increasing (b' # map row_balance (fst (schedule_loop amt adj b' ns)))" .
  then show ?case unfolding fst_eq using dec by (simp add: hd)
qed

lemma fadd_commute: "fadd x y = fadd y x"
  by (cases x; cases y) (simp_all add: add.commute)

lemma fl_1: "fl 1 = Finite 1"
  by (rule fl_eqI [where e = 0 and m = "2 ^ 52"]) (simp_all add: pow2_def round_half_even_unique)

lemma round_half_even_0: "round_half_even 0 = 0"
  by (simp add: round_half_even_def)

lemma round2_0: "round2 (Finite 0) = Finite 0"
  by (simp add: fl_def round_half_even_0)

lemma frequency_value_pos: "0 < frequency_value f"
  by (cases f) simp_all

lemma adjusted_interest_total: "\<exists>adj. adjusted_interest rate f = Inr adj"
  using frequency_value_pos [of f] by (cases rate) (simp_all add: adjusted_interest_def)

lemma adjusted_interest_0: "adjusted_interest (Finite 0) f = Inr (Finite 0)"
  using frequency_value_pos [of f] by (simp add: adjusted_interest_def fl_def)

lemma float_pow_0: "float_pow v 0 = Inr (Finite 1)"
  by (simp add: float_pow_def int_to_float_def fl_def)

lemma fsub_1_1: "fsub (Finite 1) (Finite 1) = Finite 0"
  by (simp add: fsub_def fl_def)

lemma float_div_0: "float_div x (Finite 0) = Inl ZeroDivisionError"
  by simp

lemma calculate_period_0:
  "calculate_amortization_amount P rate 0 f = Inl ZeroDivisionError"
proof -
  obtain adj where "adjusted_interest rate f = Inr adj"
    using adjusted_interest_total by blast
  then show ?thesis
    by (simp add: calculate_amortization_amount_def float_pow_0 fsub_1_1 del: float_div.simps add: float_div_0)
qed

lemma fl_2_1023: "fl (2 ^ 1023) = Finite (2 ^ 1023)"
  by (rule fl_eqI [where e = 1023 and m = "2 ^ 52"]) (simp_all add: pow2_def round_half_even_unique)

lemma int_to_float_ok:
  assumes "\<bar>n\<bar> \<le> 2 ^ 1023"
  shows "\<exists>q. int_to_float n = Inr q \<and> (q = 0 \<longleftrightarrow> n = 0)"
proof -
  have a: "\<bar>rat_of_int n\<bar> \<le> 2 ^ 1023"
  proof -
    have "rat_of_int \<bar>n\<bar> \<le> rat_of_int (2 ^ 1023)" using assms by (simp only: of_int_le_iff)
    then show ?thesis by simp
  qed
  then have le: "rat_of_int n \<le> 2 ^ 1023" and ge: "- (2 ^ 1023) \<le> rat_of_int n" by linarith+
  have "fle (fl (of_int n)) (fl (2 ^ 1023))" using le by (rule fl_mono)
  then have 1: "fle (fl (of_int n)) (Finite (2 ^ 1023))" by (simp only: fl_2_1023)
  have "fle (fl (- (2 ^ 1023))) (fl (of_int n))" using ge by (rule fl_mono)
  then have 2: "fle (fneg (Finite (2 ^ 1023))) (fl (of_int n))" by (simp only: fl_minus fl_2_1023)
  obtain q where q: "fl (of_int n) = Finite q"
    using 1 2 by (cases "fl (rat_of_int n)") simp_all
  have "q = 0 \<longleftrightarrow> n = 0"
  proof
    assume "n = 0"
    then show "q = 0" using q by (simp add: fl_def)
  next
    assume q0: "q = 0"
    show "n = 0"
    proof (rule ccontr)
      assume n: "n \<noteq> 0"
      then have "1 \<le> \<bar>n\<bar>" by simp
      then have "rat_of_int 1 \<le> of_int \<bar>n\<bar>" by (simp only: of_int_le_iff)
      then have "1 \<le> \<bar>rat_of_int n\<bar>" by simp
      then consider "1 \<le> rat_of_int n" | "rat_of_int n \<le> - 1" by linarith
      then show False
      proof cases
        case 1
        then have "fle (fl 1) (fl (of_int n))" by (rule fl_mono)
        then show False by (simp add: fl_1 q q0)
      next
        case 2
        then have "fle (fl (of_int n)) (fl (- 1))" by (rule fl_mono)
        then show False by (simp add: fl_minus fl_1 q q0)
      qed
    qed
  qed
  with q show ?thesis by (simp add: int_to_float_def)
qed

lemma float_pow_1:
  assumes "\<bar>n\<bar> \<le> 2 ^ 1023"
  shows "float_pow (Finite 1) n = Inr (Finite 1)"
proof -
  from int_to_float_ok [OF assms] obtain q where "int_to_float n = Inr q" by blast
  then show ?thesis by (simp add: float_pow_def)
qed

lemma schedule_loop_Cons:
  "schedule_loop amt adj b (n # ns) =
     ((n, amt, round2 (fmul b adj), fsub amt (round2 (fmul b adj)),
        fsub b (fsub amt (round2 (fmul b adj)))) #
      fst (schedule_loop amt adj (fsub b (fsub amt (round2 (fmul b adj)))) ns),
      snd (schedule_loop amt adj (fsub b (fsub amt (round2 (fmul b adj)))) ns))"
  by (simp add: Let_def split: prod.splits)

lemma schedule_loop_length: "length (fst (schedule_loop amt adj b ns)) = length ns"
  by (induction ns arbitrary: b) (simp_all add: schedule_loop_Cons del: schedule_loop.simps(2))

lemma schedule_loop_numbers: "map row_number (fst (schedule_loop amt adj b ns)) = ns"
  by (induction ns arbitrary: b)
     (simp_all add: schedule_loop_Cons row_number_def del: schedule_loop.simps(2))

lemma schedule_loop_principal:
  "r \<in> set (fst (schedule_loop amt adj b ns)) \<Longrightarrow>
     row_amount r = amt \<and> row_principal r = fsub (row_amount r) (row_interest r)"
  by (induction ns arbitrary: b)
     (auto simp: schedule_loop_Cons row_amount_def row_principal_def row_interest_def
           simp del: schedule_loop.simps(2))

lemma schedule_loop_snd:
  "snd (schedule_loop amt adj b ns) =
     (if ns = [] then b else row_balance (last (fst (schedule_loop amt adj b ns))))"
proof (induction ns arbitrary: b)
  case Nil
  then show ?case by simp
next
  case (Cons n ns)
  show ?case
  proof (cases "ns = []")
    case True
    then show ?thesis by (simp add: Let_def row_balance_def)
  next
    case False
    then have "fst (schedule_loop amt adj b' ns) \<noteq> []" for b'
      using schedule_loop_length [of amt adj b' ns] by auto
    then show ?thesis
      using Cons.IH False by (simp add: schedule_loop_Cons del: schedule_loop.simps(2))
  qed
qed

text \<open>What a run that returns looks like.\<close>

lemma amortization_schedule_Inr:
  assumes "amortization_schedule P rate T f = Inr rows"
  obtains amt adj where
    "calculate_amortization_amount P rate T f = Inr amt"
    "adjusted_interest rate f = Inr adj"
    "rows = fst (schedule_loop amt adj P [1 .. T - 1]) @
       [(T, fadd (snd (schedule_loop amt adj P [1 .. T - 1]))
                 (round2 (fmul (snd (schedule_loop amt adj P [1 .. T - 1])) adj)),
            round2 (fmul (snd (schedule_loop amt adj P [1 .. T - 1])) adj),
            snd (schedule_loop amt adj P [1 .. T - 1]), Finite 0)]"
  using assms
  by (auto simp: amortization_schedule_def Let_def split: sum.splits prod.splits)

lemma amortization_schedule_IntrI:
  assumes "calculate_amortization_amount P rate T f = Inr amt"
    and "adjusted_interest rate f = Inr adj"
  shows "amortization_schedule P rate T f =
     Inr (fst (schedule_loop amt adj P [1 .. T - 1]) @
       [(T, fadd (snd (schedule_loop amt adj P [1 .. T - 1]))
                 (round2 (fmul (snd (schedule_loop amt adj P [1 .. T - 1])) adj)),
            round2 (fmul (snd (schedule_loop amt adj P [1 .. T - 1])) adj),
            snd (schedule_loop amt adj P [1 .. T - 1]), Finite 0)])"
  using assms
  by (simp add: amortization_schedule_def Let_def split: prod.splits)

lemma amortization_schedule_period_0:
  "amortization_schedule P rate 0 f = Inl ZeroDivisionError"
  by (simp add: amortization_schedule_def calculate_period_0)

lemma upto_snoc: "0 < T \<Longrightarrow> [1 .. T - 1] @ [T] = [1 .. T]"
  using upto_rec2 [of 1 T] by simp

lemma schedule_rows:
  assumes "amortization_schedule P rate T f = Inr rows"
  obtains amt adj L b where
    "calculate_amortization_amount P rate T f = Inr amt"
    "adjusted_interest rate f = Inr adj"
    "schedule_loop amt adj P [1 .. T - 1] = (L, b)"
    "rows = L @ [(T, fadd b (round2 (fmul b adj)), round2 (fmul b adj), b, Finite 0)]"
proof -
  from assms obtain amt adj where
    1: "calculate_amortization_amount P rate T f = Inr amt"
    and 2: "adjusted_interest rate f = Inr adj"
    and 3: "rows = fst (schedule_loop amt adj P [1 .. T - 1]) @
       [(T, fadd (snd (schedule_loop amt adj P [1 .. T - 1]))
                 (round2 (fmul (snd (schedule_loop amt adj P [1 .. T - 1])) adj)),
            round2 (fmul (snd (schedule_loop amt adj P [1 .. T - 1])) adj),
            snd (schedule_loop amt adj P [1 .. T - 1]), Finite 0)]"
    by (rule amortization_schedule_Inr)
  show thesis
    by (rule that [OF 1 2 _ 3]) simp
qed

lemma schedule_length:
  assumes "0 < T" and "amortization_schedule P rate T f = Inr rows"
  shows "length rows = nat T \<and> map row_number rows = [1 .. T]"
proof -
  from assms(2) obtain amt adj L b where
    loop: "schedule_loop amt adj P [1 .. T - 1] = (L, b)"
    and rows: "rows = L @ [(T, fadd b (round2 (fmul b adj)), round2 (fmul b adj), b, Finite 0)]"
    by (rule schedule_rows)
  have len: "length L = nat (T - 1)"
    using schedule_loop_length [of amt adj P "[1 .. T - 1]"] by (simp add: loop)
  have num: "map row_number L = [1 .. T - 1]"
    using schedule_loop_numbers [of amt adj P "[1 .. T - 1]"] by (simp add: loop)
  have "length rows = nat T" using assms(1) by (simp add: rows len)
  moreover have "map row_number rows = [1 .. T]"
    using upto_snoc [OF assms(1)] by (simp add: rows num row_number_def)
  ultimately show ?thesis by simp
qed

lemma calculate_zero_rate:
  assumes "\<bar>N\<bar> \<le> 2 ^ 1023"
  shows "calculate_amortization_amount P (Finite 0) N f = Inl ZeroDivisionError"
proof -
  have "fadd (Finite 1) (Finite 0) = Finite 1" by (simp add: fl_1)
  then show ?thesis
    by (simp add: calculate_amortization_amount_def adjusted_interest_0 float_pow_1 [OF assms]
        fsub_1_1 float_div_0 del: float_div.simps fadd.simps)
qed

lemma single_row_without_loop:
  assumes "T \<le> 1"
    and "calculate_amortization_amount P rate T f = Inr amt"
    and "adjusted_interest rate f = Inr adj"
  shows "amortization_schedule P rate T f =
    Inr [(T, fadd P (round2 (fmul P adj)), round2 (fmul P adj), P, Finite 0)]"
proof -
  have "[1 .. T - 1] = []" using assms(1) by simp
  then show ?thesis
    by (simp add: amortization_schedule_IntrI [OF assms(2,3)])
qed

lemma slice_to_all: "int (length xs) \<le> m \<Longrightarrow> slice_to xs m = xs"
  by (simp add: slice_to_def)

lemma loan_schedule_of_length:
  assumes "0 \<le> loan_term_months db_loan" and "loan_schedule_of db_loan = Inr rows"
  shows "int (length rows) = loan_term_months db_loan"
proof -
  from assms(2) obtain r where
    s: "amortization_schedule (amount db_loan) r (loan_term_months db_loan) (frequency db_loan) = Inr rows"
    by (auto simp: loan_schedule_of_def split: sum.splits)
  have "loan_term_months db_loan \<noteq> 0"
    using s by (auto simp: amortization_schedule_period_0)
  then have "0 < loan_term_months db_loan" using assms(1) by simp
  from schedule_length [OF this s] this show ?thesis by simp
qed

lemma get_loan_summary_month_0:
  assumes "db loan_id = Some db_loan" and "loan_schedule_of db_loan = Inr rows"
  shows "get_loan_summary db loan_id 0 =
    Inr \<lparr>current_principal_balance = Finite 0, aggregate_principal_paid = Finite 0,
         aggregate_interest_paid = Finite 0\<rparr>"
  using assms by (simp add: get_loan_summary_def slice_to_def round2_0 del: round2.simps)

section \<open>Evaluated runs\<close>

text \<open>
  Runs of the engine on concrete inputs. Every rounding is justified by its exponent and
  its significand, and the bounds are checked by the simplifier on rational numerals.
\<close>

lemma lit_tenth:
  "lit (1 / 10) = Finite (3602879701896397 / 36028797018963968)"
  unfolding lit_def by (rule fl_eqI [where e = "- 4" and m = "7205759403792794"])
       (simp_all add: pow2_def round_half_even_unique)

lemma lit_cent:
  "lit (1 / 100) = Finite (5764607523034235 / 576460752303423488)"
  unfolding lit_def by (rule fl_eqI [where e = "- 7" and m = "5764607523034235"])
       (simp_all add: pow2_def round_half_even_unique)

lemma lit_minus_cent:
  "lit (- (1 / 100)) = Finite (- (5764607523034235 / 576460752303423488))"
  unfolding lit_def by (rule fl_eqI [where e = "- 7" and m = "- 5764607523034235"])
       (simp_all add: pow2_def round_half_even_unique)

lemma lit_663:
  "lit (663 / 100) = Finite (7464716382366597 / 1125899906842624)"
  unfolding lit_def by (rule fl_eqI [where e = "2" and m = "7464716382366597"])
       (simp_all add: pow2_def round_half_even_unique)

lemma lit_115:
  "lit (115 / 100) = Finite (2589569785738035 / 2251799813685248)"
  unfolding lit_def by (rule fl_eqI [where e = "0" and m = "5179139571476070"])
       (simp_all add: pow2_def round_half_even_unique)

lemma ex_principal_float:
  "fl (23 / 2) = Finite (23 / 2)"
  by (rule fl_eqI [where e = "3" and m = "6473924464345088"])
       (simp_all add: pow2_def round_half_even_unique)

lemma ex_rate_yearly:
  "adjusted_interest (lit (1 / 10)) YEARLY = Inr (Finite (3602879701896397 / 36028797018963968))"
proof -
  have s1: "lit (1 / 10) = Finite (3602879701896397 / 36028797018963968)"
    unfolding lit_def by (rule fl_eqI [where e = "- 4" and m = "7205759403792794"])
       (simp_all add: pow2_def round_half_even_unique)
  have s2: "float_div (Finite (3602879701896397 / 36028797018963968)) (Finite 1) = Inr (Finite (3602879701896397 / 36028797018963968))"
    by (rule float_div_FiniteI, rule fl_eqI [where e = "- 4" and m = "7205759403792794"])
       (simp_all add: pow2_def round_half_even_unique)
  show ?thesis
    by (simp only: adjusted_interest_def frequency_value.simps of_int_numeral of_int_1 s1 s2)
qed

lemma ex_rate_monthly:
  "adjusted_interest (lit (1 / 10)) MONTHLY = Inr (Finite (4803839602528529 / 576460752303423488))"
proof -
  have s1: "lit (1 / 10) = Finite (3602879701896397 / 36028797018963968)"
    unfolding lit_def by (rule fl_eqI [where e = "- 4" and m = "7205759403792794"])
       (simp_all add: pow2_def round_half_even_unique)
  have s2: "float_div (Finite (3602879701896397 / 36028797018963968)) (Finite 12) = Inr (Finite (4803839602528529 / 576460752303423488))"
    by (rule float_div_FiniteI, rule fl_eqI [where e = "- 7" and m = "4803839602528529"])
       (simp_all add: pow2_def round_half_even_unique)
  show ?thesis
    by (simp only: adjusted_interest_def frequency_value.simps of_int_numeral of_int_1 s1 s2)
qed

lemma ex_reference_monthly:
  "calculate_amortization_amount (Finite 150000) (lit (1 / 10)) 36 MONTHLY = Inr (lit (484008 / 100))"
proof -
  have s1: "lit (1 / 10) = Finite (3602879701896397 / 36028797018963968)"
    unfolding lit_def by (rule fl_eqI [where e = "- 4" and m = "7205759403792794"])
       (simp_all add: pow2_def round_half_even_unique)
  have s2: "float_div (Finite (3602879701896397 / 36028797018963968)) (Finite 12) = Inr (Finite (4803839602528529 / 576460752303423488))"
    by (rule float_div_FiniteI, rule fl_eqI [where e = "- 7" and m = "4803839602528529"])
       (simp_all add: pow2_def round_half_even_unique)
  have s3: "fadd (Finite 1) (Finite (4803839602528529 / 576460752303423488)) = Finite (2270564812132625 / 2251799813685248)"
    by (rule fadd_FiniteI, rule fl_eqI [where e = "0" and m = "4541129624265250"])
       (simp_all add: pow2_def round_half_even_unique)
  have s4: "fl 36 = Finite 36"
    by (rule fl_eqI [where e = "5" and m = "5066549580791808"])
       (simp_all add: pow2_def round_half_even_unique)
  have s5: "(2270564812132625 / 2251799813685248 :: rat) ^ nat 36 = 6619428763176573273311822407780462954741627156028620294495633290398783126444618014306468297079252788065635914848475813578257962735397084801361190288991332159237232363494802489964365379807062061390004408332851402462013862526635184967347394716043925732101035980453452790963070062995673285032864603597521325554686823577199156863064434833758768521340247822415556564483073148478981366661230893376300667455971316782176939887169599966994205496790756166166335532757889392249531740281043076185471754152403497949137164122791754383712259368621744215488433837890625 / 4909893127844230264371119485113801407408719331944747993140319981075833072310542324219972108247890663973822080699266199645776872253206241244390831772908903724105855431745550760129251672253100888495013221623354736061390542345500045672954970034722363565192440612775653134434194417822048716823188140506779219821103675591884904170471712558607503359442050175420775031204739598009328851048999709971049627245941845322677498882818838263551860142458615383499987064155757198078889551195635500283861240115848872886042875205335023418755417414070703814651175015284736"
    by (simp add: power_divide)
  have s6: "float_pow (Finite (2270564812132625 / 2251799813685248)) 36 = Inr (Finite (1517917810786275 / 1125899906842624))"
    by (rule float_pow_posI, simp add: s4, simp, simp, simp, simp only: s5, rule fl_eqI [where e = "0" and m = "6071671243145100"])
       (simp_all add: pow2_def round_half_even_unique)
  have s7: "fmul (Finite (4803839602528529 / 576460752303423488)) (Finite (1517917810786275 / 1125899906842624)) = Finite (101194520719085 / 9007199254740992)"
    by (rule fmul_FiniteI, rule fl_eqI [where e = "- 7" and m = "6476449326021440"])
       (simp_all add: pow2_def round_half_even_unique)
  have s8: "fmul (Finite 150000) (Finite (101194520719085 / 9007199254740992)) = Finite (3705854030239929 / 2199023255552)"
    by (rule fmul_FiniteI, rule fl_eqI [where e = "10" and m = "7411708060479858"])
       (simp_all add: pow2_def round_half_even_unique)
  have s9: "fsub (Finite (1517917810786275 / 1125899906842624)) (Finite 1) = Finite (392017903943651 / 1125899906842624)"
    by (rule fsub_FiniteI, rule fl_eqI [where e = "- 2" and m = "6272286463098416"])
       (simp_all add: pow2_def round_half_even_unique)
  have s10: "float_div (Finite (3705854030239929 / 2199023255552)) (Finite (392017903943651 / 1125899906842624)) = Inr (Finite (1330430531821847 / 274877906944))"
    by (rule float_div_FiniteI, rule fl_eqI [where e = "12" and m = "5321722127287388"])
       (simp_all add: pow2_def round_half_even_unique)
  have s11: "round2 (Finite (1330430531821847 / 274877906944)) = Finite (2660862119683031 / 549755813888)"
    by (rule round2_FiniteI [where n = "484008"], simp add: round_half_even_unique, rule fl_eqI [where e = "12" and m = "5321724239366062"])
       (simp_all add: pow2_def round_half_even_unique)
  have s12: "lit (484008 / 100) = Finite (2660862119683031 / 549755813888)"
    unfolding lit_def by (rule fl_eqI [where e = "12" and m = "5321724239366062"])
       (simp_all add: pow2_def round_half_even_unique)
  show ?thesis
    by (simp only: calculate_amortization_amount_def adjusted_interest_def frequency_value.simps
          of_int_numeral of_int_1 sum.case s1 s2 s3 s4 s5 s6 s7 s8 s9 s10 s11 s12)
qed

lemma ex_reference_semimonthly:
  "calculate_amortization_amount (Finite 150000) (lit (1 / 10)) 36 SEMIMONTHLY = Inr (lit (449563 / 100))"
proof -
  have s1: "lit (1 / 10) = Finite (3602879701896397 / 36028797018963968)"
    unfolding lit_def by (rule fl_eqI [where e = "- 4" and m = "7205759403792794"])
       (simp_all add: pow2_def round_half_even_unique)
  have s2: "float_div (Finite (3602879701896397 / 36028797018963968)) (Finite 24) = Inr (Finite (4803839602528529 / 1152921504606846976))"
    by (rule float_div_FiniteI, rule fl_eqI [where e = "- 8" and m = "4803839602528529"])
       (simp_all add: pow2_def round_half_even_unique)
  have s3: "fadd (Finite 1) (Finite (4803839602528529 / 1152921504606846976)) = Finite (4522364625817873 / 4503599627370496)"
    by (rule fadd_FiniteI, rule fl_eqI [where e = "0" and m = "4522364625817873"])
       (simp_all add: pow2_def round_half_even_unique)
  have s4: "fl 36 = Finite 36"
    by (rule fl_eqI [where e = "5" and m = "5066549580791808"])
       (simp_all add: pow2_def round_half_even_unique)
  have s5: "(4522364625817873 / 4503599627370496 :: rat) ^ nat 36 = 391886871062133473673710244181463818318291323509916784587392550875124065196721303784418978973159941792865267499222554098700186570771340676605234818073937570634330842270621749398807409793341933644239761999896396102242284874219051703971706951488373608944969435828502419315656200058779385525457665504773676982456473679201382180480152535734978698194642098914944913588776271833717937663998980769650915151099879627602581276196945258969733123816122299586581779864902773141419070265770672119654003261295270768573599292530758861940635541155923711488662571136687464639159361 / 337405286575137855484278275127554174128947546175130571351988906523136671064463719016777742639309796204020659787616338218829095213451050196603919454510103044515956094743217611332209226644486063210793991135358537939046147642522013262909566527676680575237175942052698079958956103818423340583589729246906713846784564116680625702532320229317307363664219812969972668767963776858340065890635344765426292093028972390060646797708535146154698689789210465689199079311552496253846794406101954746492523886393186565184244541771571364911178093060201009850067877417923859967901696"
    by (simp add: power_divide)
  have s6: "float_pow (Finite (4522364625817873 / 4503599627370496)) 36 = Inr (Finite (653850738529323 / 562949953421312))"
    by (rule float_pow_posI, simp add: s4, simp, simp, simp, simp only: s5, rule fl_eqI [where e = "0" and m = "5230805908234584"])
       (simp_all add: pow2_def round_half_even_unique)
  have s7: "fmul (Finite (4803839602528529 / 1152921504606846976)) (Finite (653850738529323 / 562949953421312)) = Finite (2789763151058445 / 576460752303423488)"
    by (rule fmul_FiniteI, rule fl_eqI [where e = "- 8" and m = "5579526302116890"])
       (simp_all add: pow2_def round_half_even_unique)
  have s8: "fmul (Finite 150000) (Finite (2789763151058445 / 576460752303423488)) = Finite (1596315279612605 / 2199023255552)"
    by (rule fmul_FiniteI, rule fl_eqI [where e = "9" and m = "6385261118450420"])
       (simp_all add: pow2_def round_half_even_unique)
  have s9: "fsub (Finite (653850738529323 / 562949953421312)) (Finite 1) = Finite (90900785108011 / 562949953421312)"
    by (rule fsub_FiniteI, rule fl_eqI [where e = "- 3" and m = "5817650246912704"])
       (simp_all add: pow2_def round_half_even_unique)
  have s10: "float_div (Finite (1596315279612605 / 2199023255552)) (Finite (90900785108011 / 562949953421312)) = Inr (Finite (2471501239609337 / 549755813888))"
    by (rule float_div_FiniteI, rule fl_eqI [where e = "12" and m = "4943002479218674"])
       (simp_all add: pow2_def round_half_even_unique)
  have s11: "round2 (Finite (2471501239609337 / 549755813888)) = Finite (4942997459178619 / 1099511627776)"
    by (rule round2_FiniteI [where n = "449563"], simp add: round_half_even_unique, rule fl_eqI [where e = "12" and m = "4942997459178619"])
       (simp_all add: pow2_def round_half_even_unique)
  have s12: "lit (449563 / 100) = Finite (4942997459178619 / 1099511627776)"
    unfolding lit_def by (rule fl_eqI [where e = "12" and m = "4942997459178619"])
       (simp_all add: pow2_def round_half_even_unique)
  show ?thesis
    by (simp only: calculate_amortization_amount_def adjusted_interest_def frequency_value.simps
          of_int_numeral of_int_1 sum.case s1 s2 s3 s4 s5 s6 s7 s8 s9 s10 s11 s12)
qed

lemma ex_negative_period_amount:
  "calculate_amortization_amount (Finite 1000) (lit (1 / 10)) (- 1) MONTHLY = Inr (Finite (- 1000))"
proof -
  have s1: "lit (1 / 10) = Finite (3602879701896397 / 36028797018963968)"
    unfolding lit_def by (rule fl_eqI [where e = "- 4" and m = "7205759403792794"])
       (simp_all add: pow2_def round_half_even_unique)
  have s2: "float_div (Finite (3602879701896397 / 36028797018963968)) (Finite 12) = Inr (Finite (4803839602528529 / 576460752303423488))"
    by (rule float_div_FiniteI, rule fl_eqI [where e = "- 7" and m = "4803839602528529"])
       (simp_all add: pow2_def round_half_even_unique)
  have s3: "fadd (Finite 1) (Finite (4803839602528529 / 576460752303423488)) = Finite (2270564812132625 / 2251799813685248)"
    by (rule fadd_FiniteI, rule fl_eqI [where e = "0" and m = "4541129624265250"])
       (simp_all add: pow2_def round_half_even_unique)
  have s4: "fl (- 1) = Finite (- 1)"
    by (rule fl_eqI [where e = "0" and m = "- 4503599627370496"])
       (simp_all add: pow2_def round_half_even_unique)
  have s5: "1 / (2270564812132625 / 2251799813685248 :: rat) ^ nat (- (- 1)) = 2251799813685248 / 2270564812132625"
    by (simp add: power_divide)
  have s6: "float_pow (Finite (2270564812132625 / 2251799813685248)) (- 1) = Inr (Finite (4466379795739335 / 4503599627370496))"
    by (rule float_pow_negI, simp add: s4, simp, simp, simp, simp only: s5, rule fl_eqI [where e = "- 1" and m = "8932759591478670"])
       (simp_all add: pow2_def round_half_even_unique)
  have s7: "fmul (Finite (4803839602528529 / 576460752303423488)) (Finite (4466379795739335 / 4503599627370496)) = Finite (297758653049289 / 36028797018963968)"
    by (rule fmul_FiniteI, rule fl_eqI [where e = "- 7" and m = "4764138448788624"])
       (simp_all add: pow2_def round_half_even_unique)
  have s8: "fmul (Finite 1000) (Finite (297758653049289 / 36028797018963968)) = Finite (4652478953895141 / 562949953421312)"
    by (rule fmul_FiniteI, rule fl_eqI [where e = "3" and m = "4652478953895141"])
       (simp_all add: pow2_def round_half_even_unique)
  have s9: "fsub (Finite (4466379795739335 / 4503599627370496)) (Finite 1) = Finite (- (37219831631161 / 4503599627370496))"
    by (rule fsub_FiniteI, rule fl_eqI [where e = "- 7" and m = "- 4764138448788608"])
       (simp_all add: pow2_def round_half_even_unique)
  have s10: "float_div (Finite (4652478953895141 / 562949953421312)) (Finite (- (37219831631161 / 4503599627370496))) = Inr (Finite (- (4398046511104015 / 4398046511104)))"
    by (rule float_div_FiniteI, rule fl_eqI [where e = "9" and m = "- 8796093022208030"])
       (simp_all add: pow2_def round_half_even_unique)
  have s11: "round2 (Finite (- (4398046511104015 / 4398046511104))) = Finite (- 1000)"
    by (rule round2_FiniteI [where n = "- 100000"], simp add: round_half_even_unique, rule fl_eqI [where e = "9" and m = "- 8796093022208000"])
       (simp_all add: pow2_def round_half_even_unique)
  show ?thesis
    by (simp only: calculate_amortization_amount_def adjusted_interest_def frequency_value.simps
          of_int_numeral of_int_1 sum.case s1 s2 s3 s4 s5 s6 s7 s8 s9 s10 s11)
qed

lemma ex_one_period:
  "amortization_schedule (Finite 150000) (lit (1 / 10)) 1 MONTHLY =
     Inr [(1, Finite 151250, Finite 1250, Finite 150000, Finite 0)]"
proof -
  have s1: "lit (1 / 10) = Finite (3602879701896397 / 36028797018963968)"
    unfolding lit_def by (rule fl_eqI [where e = "- 4" and m = "7205759403792794"])
       (simp_all add: pow2_def round_half_even_unique)
  have s2: "float_div (Finite (3602879701896397 / 36028797018963968)) (Finite 12) = Inr (Finite (4803839602528529 / 576460752303423488))"
    by (rule float_div_FiniteI, rule fl_eqI [where e = "- 7" and m = "4803839602528529"])
       (simp_all add: pow2_def round_half_even_unique)
  have s3: "fadd (Finite 1) (Finite (4803839602528529 / 576460752303423488)) = Finite (2270564812132625 / 2251799813685248)"
    by (rule fadd_FiniteI, rule fl_eqI [where e = "0" and m = "4541129624265250"])
       (simp_all add: pow2_def round_half_even_unique)
  have s4: "fl 1 = Finite 1"
    by (rule fl_eqI [where e = "0" and m = "4503599627370496"])
       (simp_all add: pow2_def round_half_even_unique)
  have s5: "(2270564812132625 / 2251799813685248 :: rat) ^ nat 1 = 2270564812132625 / 2251799813685248"
    by (simp add: power_divide)
  have s6: "float_pow (Finite (2270564812132625 / 2251799813685248)) 1 = Inr (Finite (2270564812132625 / 2251799813685248))"
    by (rule float_pow_posI, simp add: s4, simp, simp, simp, simp only: s5, rule fl_eqI [where e = "0" and m = "4541129624265250"])
       (simp_all add: pow2_def round_half_even_unique)
  have s7: "fmul (Finite (4803839602528529 / 576460752303423488)) (Finite (2270564812132625 / 2251799813685248)) = Finite (4843871599216267 / 576460752303423488)"
    by (rule fmul_FiniteI, rule fl_eqI [where e = "- 7" and m = "4843871599216267"])
       (simp_all add: pow2_def round_half_even_unique)
  have s8: "fmul (Finite 150000) (Finite (4843871599216267 / 576460752303423488)) = Finite (5543371123370667 / 4398046511104)"
    by (rule fmul_FiniteI, rule fl_eqI [where e = "10" and m = "5543371123370667"])
       (simp_all add: pow2_def round_half_even_unique)
  have s9: "fsub (Finite (2270564812132625 / 2251799813685248)) (Finite 1) = Finite (18764998447377 / 2251799813685248)"
    by (rule fsub_FiniteI, rule fl_eqI [where e = "- 7" and m = "4803839602528512"])
       (simp_all add: pow2_def round_half_even_unique)
  have s10: "float_div (Finite (5543371123370667 / 4398046511104)) (Finite (18764998447377 / 2251799813685248)) = Inr (Finite (5196910428160019 / 34359738368))"
    by (rule float_div_FiniteI, rule fl_eqI [where e = "17" and m = "5196910428160019"])
       (simp_all add: pow2_def round_half_even_unique)
  have s11: "round2 (Finite (5196910428160019 / 34359738368)) = Finite 151250"
    by (rule round2_FiniteI [where n = "15125000"], simp add: round_half_even_unique, rule fl_eqI [where e = "17" and m = "5196910428160000"])
       (simp_all add: pow2_def round_half_even_unique)
  have s12: "fmul (Finite 150000) (Finite (4803839602528529 / 576460752303423488)) = Finite 1250"
    by (rule fmul_FiniteI, rule fl_eqI [where e = "10" and m = "5497558138880000"])
       (simp_all add: pow2_def round_half_even_unique)
  have s13: "round2 (Finite 1250) = Finite 1250"
    by (rule round2_FiniteI [where n = "125000"], simp add: round_half_even_unique, rule fl_eqI [where e = "10" and m = "5497558138880000"])
       (simp_all add: pow2_def round_half_even_unique)
  have s14: "fadd (Finite 150000) (Finite 1250) = Finite 151250"
    by (rule fadd_FiniteI, rule fl_eqI [where e = "17" and m = "5196910428160000"])
       (simp_all add: pow2_def round_half_even_unique)
  have calc: "calculate_amortization_amount (Finite 150000) (Finite (3602879701896397 / 36028797018963968)) 1 MONTHLY = Inr (Finite 151250)"
    by (simp only: calculate_amortization_amount_def adjusted_interest_def frequency_value.simps
          of_int_numeral of_int_1 sum.case s1 s2 s3 s4 s5 s6 s7 s8 s9 s10 s11 s12 s13 s14)
  have adj: "adjusted_interest (Finite (3602879701896397 / 36028797018963968)) MONTHLY = Inr (Finite (4803839602528529 / 576460752303423488))"
    by (simp only: adjusted_interest_def frequency_value.simps of_int_numeral of_int_1 s1 s2 s3 s4 s5 s6 s7 s8 s9 s10 s11 s12 s13 s14)
  have u: "[1 .. 1 - 1] = []"
    by (simp add: upto_rec1)
  show ?thesis
    by (simp only: amortization_schedule_IntrI [OF calc adj] u schedule_loop_Cons schedule_loop.simps(1)
          fst_conv snd_conv append.simps s1 s2 s3 s4 s5 s6 s7 s8 s9 s10 s11 s12 s13 s14)
qed

lemma ex_two_periods:
  "amortization_schedule (Finite (23 / 2)) (lit (1 / 10)) 2 YEARLY =
     Inr [(1, lit (663 / 100), lit (115 / 100), lit (548 / 100), lit (602 / 100)),
          (2, lit (6619999999999999 / 1000000000000000), lit (6 / 10), lit (602 / 100), Finite 0)]"
proof -
  have s1: "lit (1 / 10) = Finite (3602879701896397 / 36028797018963968)"
    unfolding lit_def by (rule fl_eqI [where e = "- 4" and m = "7205759403792794"])
       (simp_all add: pow2_def round_half_even_unique)
  have s2: "float_div (Finite (3602879701896397 / 36028797018963968)) (Finite 1) = Inr (Finite (3602879701896397 / 36028797018963968))"
    by (rule float_div_FiniteI, rule fl_eqI [where e = "- 4" and m = "7205759403792794"])
       (simp_all add: pow2_def round_half_even_unique)
  have s3: "fadd (Finite 1) (Finite (3602879701896397 / 36028797018963968)) = Finite (2476979795053773 / 2251799813685248)"
    by (rule fadd_FiniteI, rule fl_eqI [where e = "0" and m = "4953959590107546"])
       (simp_all add: pow2_def round_half_even_unique)
  have s4: "fl 2 = Finite 2"
    by (rule fl_eqI [where e = "1" and m = "4503599627370496"])
       (simp_all add: pow2_def round_half_even_unique)
  have s5: "(2476979795053773 / 2251799813685248 :: rat) ^ nat 2 = 6135428905104631294035961535529 / 5070602400912917605986812821504"
    by (simp add: power_divide)
  have s6: "float_pow (Finite (2476979795053773 / 2251799813685248)) 2 = Inr (Finite (5449355549118301 / 4503599627370496))"
    by (rule float_pow_posI, simp add: s4, simp, simp, simp, simp only: s5, rule fl_eqI [where e = "0" and m = "5449355549118301"])
       (simp_all add: pow2_def round_half_even_unique)
  have s7: "fmul (Finite (3602879701896397 / 36028797018963968)) (Finite (5449355549118301 / 4503599627370496)) = Finite (4359484439294641 / 36028797018963968)"
    by (rule fmul_FiniteI, rule fl_eqI [where e = "- 4" and m = "8718968878589282"])
       (simp_all add: pow2_def round_half_even_unique)
  have s8: "fmul (Finite (23 / 2)) (Finite (4359484439294641 / 36028797018963968)) = Finite (3133379440743023 / 2251799813685248)"
    by (rule fmul_FiniteI, rule fl_eqI [where e = "0" and m = "6266758881486046"])
       (simp_all add: pow2_def round_half_even_unique)
  have s9: "fsub (Finite (5449355549118301 / 4503599627370496)) (Finite 1) = Finite (945755921747805 / 4503599627370496)"
    by (rule fsub_FiniteI, rule fl_eqI [where e = "- 3" and m = "7566047373982440"])
       (simp_all add: pow2_def round_half_even_unique)
  have s10: "float_div (Finite (3133379440743023 / 2251799813685248)) (Finite (945755921747805 / 4503599627370496)) = Inr (Finite (3730213619932167 / 562949953421312))"
    by (rule float_div_FiniteI, rule fl_eqI [where e = "2" and m = "7460427239864334"])
       (simp_all add: pow2_def round_half_even_unique)
  have s11: "round2 (Finite (3730213619932167 / 562949953421312)) = Finite (7464716382366597 / 1125899906842624)"
    by (rule round2_FiniteI [where n = "663"], simp add: round_half_even_unique, rule fl_eqI [where e = "2" and m = "7464716382366597"])
       (simp_all add: pow2_def round_half_even_unique)
  have s12: "fmul (Finite (23 / 2)) (Finite (3602879701896397 / 36028797018963968)) = Finite (5179139571476071 / 4503599627370496)"
    by (rule fmul_FiniteI, rule fl_eqI [where e = "0" and m = "5179139571476071"])
       (simp_all add: pow2_def round_half_even_unique)
  have s13: "round2 (Finite (5179139571476071 / 4503599627370496)) = Finite (2589569785738035 / 2251799813685248)"
    by (rule round2_FiniteI [where n = "115"], simp add: round_half_even_unique, rule fl_eqI [where e = "0" and m = "5179139571476070"])
       (simp_all add: pow2_def round_half_even_unique)
  have s14: "fsub (Finite (7464716382366597 / 1125899906842624)) (Finite (2589569785738035 / 2251799813685248)) = Finite (1542482872374395 / 281474976710656)"
    by (rule fsub_FiniteI, rule fl_eqI [where e = "2" and m = "6169931489497580"])
       (simp_all add: pow2_def round_half_even_tie [where m = "6169931489497579"])
  have s15: "fsub (Finite (23 / 2)) (Finite (1542482872374395 / 281474976710656)) = Finite (1694479359798149 / 281474976710656)"
    by (rule fsub_FiniteI, rule fl_eqI [where e = "2" and m = "6777917439192596"])
       (simp_all add: pow2_def round_half_even_unique)
  have s16: "fmul (Finite (1694479359798149 / 281474976710656)) (Finite (3602879701896397 / 36028797018963968)) = Finite (5422333951354077 / 9007199254740992)"
    by (rule fmul_FiniteI, rule fl_eqI [where e = "- 1" and m = "5422333951354077"])
       (simp_all add: pow2_def round_half_even_unique)
  have s17: "round2 (Finite (5422333951354077 / 9007199254740992)) = Finite (5404319552844595 / 9007199254740992)"
    by (rule round2_FiniteI [where n = "60"], simp add: round_half_even_unique, rule fl_eqI [where e = "- 1" and m = "5404319552844595"])
       (simp_all add: pow2_def round_half_even_unique)
  have s18: "fadd (Finite (1694479359798149 / 281474976710656)) (Finite (5404319552844595 / 9007199254740992)) = Finite (3726728691649085 / 562949953421312)"
    by (rule fadd_FiniteI, rule fl_eqI [where e = "2" and m = "7453457383298170"])
       (simp_all add: pow2_def round_half_even_unique)
  have s19: "lit (663 / 100) = Finite (7464716382366597 / 1125899906842624)"
    unfolding lit_def by (rule fl_eqI [where e = "2" and m = "7464716382366597"])
       (simp_all add: pow2_def round_half_even_unique)
  have s20: "lit (115 / 100) = Finite (2589569785738035 / 2251799813685248)"
    unfolding lit_def by (rule fl_eqI [where e = "0" and m = "5179139571476070"])
       (simp_all add: pow2_def round_half_even_unique)
  have s21: "lit (548 / 100) = Finite (1542482872374395 / 281474976710656)"
    unfolding lit_def by (rule fl_eqI [where e = "2" and m = "6169931489497580"])
       (simp_all add: pow2_def round_half_even_unique)
  have s22: "lit (602 / 100) = Finite (1694479359798149 / 281474976710656)"
    unfolding lit_def by (rule fl_eqI [where e = "2" and m = "6777917439192596"])
       (simp_all add: pow2_def round_half_even_unique)
  have s23: "lit (6619999999999999 / 1000000000000000) = Finite (3726728691649085 / 562949953421312)"
    unfolding lit_def by (rule fl_eqI [where e = "2" and m = "7453457383298170"])
       (simp_all add: pow2_def round_half_even_unique)
  have s24: "lit (6 / 10) = Finite (5404319552844595 / 9007199254740992)"
    unfolding lit_def by (rule fl_eqI [where e = "- 1" and m = "5404319552844595"])
       (simp_all add: pow2_def round_half_even_unique)
  have calc: "calculate_amortization_amount (Finite (23 / 2)) (Finite (3602879701896397 / 36028797018963968)) 2 YEARLY = Inr (Finite (7464716382366597 / 1125899906842624))"
    by (simp only: calculate_amortization_amount_def adjusted_interest_def frequency_value.simps
          of_int_numeral of_int_1 sum.case s1 s2 s3 s4 s5 s6 s7 s8 s9 s10 s11 s12 s13 s14 s15 s16 s17 s18 s19 s20 s21 s22 s23 s24)
  have adj: "adjusted_interest (Finite (3602879701896397 / 36028797018963968)) YEARLY = Inr (Finite (3602879701896397 / 36028797018963968))"
    by (simp only: adjusted_interest_def frequency_value.simps of_int_numeral of_int_1 s1 s2 s3 s4 s5 s6 s7 s8 s9 s10 s11 s12 s13 s14 s15 s16 s17 s18 s19 s20 s21 s22 s23 s24)
  have u: "[1 .. 2 - 1] = [1]"
    by (simp add: upto_rec1)
  show ?thesis
    by (simp only: amortization_schedule_IntrI [OF calc adj] u schedule_loop_Cons schedule_loop.simps(1)
          fst_conv snd_conv append.simps s1 s2 s3 s4 s5 s6 s7 s8 s9 s10 s11 s12 s13 s14 s15 s16 s17 s18 s19 s20 s21 s22 s23 s24)
qed

lemma ex_row_sum:
  "fadd (lit (115 / 100)) (lit (548 / 100)) = lit (6630000000000001 / 1000000000000000) \<and> lit (663 / 100) \<noteq> lit (6630000000000001 / 1000000000000000)"
proof -
  have s1: "lit (663 / 100) = Finite (7464716382366597 / 1125899906842624)"
    unfolding lit_def by (rule fl_eqI [where e = "2" and m = "7464716382366597"])
       (simp_all add: pow2_def round_half_even_unique)
  have s2: "lit (115 / 100) = Finite (2589569785738035 / 2251799813685248)"
    unfolding lit_def by (rule fl_eqI [where e = "0" and m = "5179139571476070"])
       (simp_all add: pow2_def round_half_even_unique)
  have s3: "lit (548 / 100) = Finite (1542482872374395 / 281474976710656)"
    unfolding lit_def by (rule fl_eqI [where e = "2" and m = "6169931489497580"])
       (simp_all add: pow2_def round_half_even_unique)
  have s4: "fadd (Finite (2589569785738035 / 2251799813685248)) (Finite (1542482872374395 / 281474976710656)) = Finite (3732358191183299 / 562949953421312)"
    by (rule fadd_FiniteI, rule fl_eqI [where e = "2" and m = "7464716382366598"])
       (simp_all add: pow2_def round_half_even_tie [where m = "7464716382366597"])
  have s5: "lit (6630000000000001 / 1000000000000000) = Finite (3732358191183299 / 562949953421312)"
    unfolding lit_def by (rule fl_eqI [where e = "2" and m = "7464716382366598"])
       (simp_all add: pow2_def round_half_even_unique)
  have "Finite (7464716382366597 / 1125899906842624) \<noteq> Finite (3732358191183299 / 562949953421312)"
    by simp
  then show ?thesis
    by (simp only: simp_thms s1 s2 s3 s4 s5)
qed

lemma ex_negative_period:
  "amortization_schedule (Finite 1000) (lit (1 / 10)) (- 1) MONTHLY =
     Inr [(- 1, lit (100833 / 100), lit (833 / 100), Finite 1000, Finite 0)]"
proof -
  have s1: "lit (1 / 10) = Finite (3602879701896397 / 36028797018963968)"
    unfolding lit_def by (rule fl_eqI [where e = "- 4" and m = "7205759403792794"])
       (simp_all add: pow2_def round_half_even_unique)
  have s2: "float_div (Finite (3602879701896397 / 36028797018963968)) (Finite 12) = Inr (Finite (4803839602528529 / 576460752303423488))"
    by (rule float_div_FiniteI, rule fl_eqI [where e = "- 7" and m = "4803839602528529"])
       (simp_all add: pow2_def round_half_even_unique)
  have s3: "fadd (Finite 1) (Finite (4803839602528529 / 576460752303423488)) = Finite (2270564812132625 / 2251799813685248)"
    by (rule fadd_FiniteI, rule fl_eqI [where e = "0" and m = "4541129624265250"])
       (simp_all add: pow2_def round_half_even_unique)
  have s4: "fl (- 1) = Finite (- 1)"
    by (rule fl_eqI [where e = "0" and m = "- 4503599627370496"])
       (simp_all add: pow2_def round_half_even_unique)
  have s5: "1 / (2270564812132625 / 2251799813685248 :: rat) ^ nat (- (- 1)) = 2251799813685248 / 2270564812132625"
    by (simp add: power_divide)
  have s6: "float_pow (Finite (2270564812132625 / 2251799813685248)) (- 1) = Inr (Finite (4466379795739335 / 4503599627370496))"
    by (rule float_pow_negI, simp add: s4, simp, simp, simp, simp only: s5, rule fl_eqI [where e = "- 1" and m = "8932759591478670"])
       (simp_all add: pow2_def round_half_even_unique)
  have s7: "fmul (Finite (4803839602528529 / 576460752303423488)) (Finite (4466379795739335 / 4503599627370496)) = Finite (297758653049289 / 36028797018963968)"
    by (rule fmul_FiniteI, rule fl_eqI [where e = "- 7" and m = "4764138448788624"])
       (simp_all add: pow2_def round_half_even_unique)
  have s8: "fmul (Finite 1000) (Finite (297758653049289 / 36028797018963968)) = Finite (4652478953895141 / 562949953421312)"
    by (rule fmul_FiniteI, rule fl_eqI [where e = "3" and m = "4652478953895141"])
       (simp_all add: pow2_def round_half_even_unique)
  have s9: "fsub (Finite (4466379795739335 / 4503599627370496)) (Finite 1) = Finite (- (37219831631161 / 4503599627370496))"
    by (rule fsub_FiniteI, rule fl_eqI [where e = "- 7" and m = "- 4764138448788608"])
       (simp_all add: pow2_def round_half_even_unique)
  have s10: "float_div (Finite (4652478953895141 / 562949953421312)) (Finite (- (37219831631161 / 4503599627370496))) = Inr (Finite (- (4398046511104015 / 4398046511104)))"
    by (rule float_div_FiniteI, rule fl_eqI [where e = "9" and m = "- 8796093022208030"])
       (simp_all add: pow2_def round_half_even_unique)
  have s11: "round2 (Finite (- (4398046511104015 / 4398046511104))) = Finite (- 1000)"
    by (rule round2_FiniteI [where n = "- 100000"], simp add: round_half_even_unique, rule fl_eqI [where e = "9" and m = "- 8796093022208000"])
       (simp_all add: pow2_def round_half_even_unique)
  have s12: "fmul (Finite 1000) (Finite (4803839602528529 / 576460752303423488)) = Finite (4691249611844267 / 562949953421312)"
    by (rule fmul_FiniteI, rule fl_eqI [where e = "3" and m = "4691249611844267"])
       (simp_all add: pow2_def round_half_even_unique)
  have s13: "round2 (Finite (4691249611844267 / 562949953421312)) = Finite (4689373111999529 / 562949953421312)"
    by (rule round2_FiniteI [where n = "833"], simp add: round_half_even_unique, rule fl_eqI [where e = "3" and m = "4689373111999529"])
       (simp_all add: pow2_def round_half_even_unique)
  have s14: "fadd (Finite 1000) (Finite (4689373111999529 / 562949953421312)) = Finite (8869364477082993 / 8796093022208)"
    by (rule fadd_FiniteI, rule fl_eqI [where e = "9" and m = "8869364477082993"])
       (simp_all add: pow2_def round_half_even_unique)
  have s15: "lit (100833 / 100) = Finite (8869364477082993 / 8796093022208)"
    unfolding lit_def by (rule fl_eqI [where e = "9" and m = "8869364477082993"])
       (simp_all add: pow2_def round_half_even_unique)
  have s16: "lit (833 / 100) = Finite (4689373111999529 / 562949953421312)"
    unfolding lit_def by (rule fl_eqI [where e = "3" and m = "4689373111999529"])
       (simp_all add: pow2_def round_half_even_unique)
  have calc: "calculate_amortization_amount (Finite 1000) (Finite (3602879701896397 / 36028797018963968)) (- 1) MONTHLY = Inr (Finite (- 1000))"
    by (simp only: calculate_amortization_amount_def adjusted_interest_def frequency_value.simps
          of_int_numeral of_int_1 sum.case s1 s2 s3 s4 s5 s6 s7 s8 s9 s10 s11 s12 s13 s14 s15 s16)
  have adj: "adjusted_interest (Finite (3602879701896397 / 36028797018963968)) MONTHLY = Inr (Finite (4803839602528529 / 576460752303423488))"
    by (simp only: adjusted_interest_def frequency_value.simps of_int_numeral of_int_1 s1 s2 s3 s4 s5 s6 s7 s8 s9 s10 s11 s12 s13 s14 s15 s16)
  have u: "[1 .. (- 1) - 1] = []"
    by (simp add: upto_rec1)
  show ?thesis
    by (simp only: amortization_schedule_IntrI [OF calc adj] u schedule_loop_Cons schedule_loop.simps(1)
          fst_conv snd_conv append.simps s1 s2 s3 s4 s5 s6 s7 s8 s9 s10 s11 s12 s13 s14 s15 s16)
qed

lemma ex_overshoot:
  "amortization_schedule (lit (2 / 100)) (lit (1 / 10)) 4 MONTHLY =
     Inr [(1, lit (1 / 100), Finite 0, lit (1 / 100), lit (1 / 100)),
          (2, lit (1 / 100), Finite 0, lit (1 / 100), Finite 0),
          (3, lit (1 / 100), Finite 0, lit (1 / 100), lit (- (1 / 100))),
          (4, lit (- (1 / 100)), Finite 0, lit (- (1 / 100)), Finite 0)]"
proof -
  have s1: "lit (2 / 100) = Finite (5764607523034235 / 288230376151711744)"
    unfolding lit_def by (rule fl_eqI [where e = "- 6" and m = "5764607523034235"])
       (simp_all add: pow2_def round_half_even_unique)
  have s2: "lit (1 / 10) = Finite (3602879701896397 / 36028797018963968)"
    unfolding lit_def by (rule fl_eqI [where e = "- 4" and m = "7205759403792794"])
       (simp_all add: pow2_def round_half_even_unique)
  have s3: "float_div (Finite (3602879701896397 / 36028797018963968)) (Finite 12) = Inr (Finite (4803839602528529 / 576460752303423488))"
    by (rule float_div_FiniteI, rule fl_eqI [where e = "- 7" and m = "4803839602528529"])
       (simp_all add: pow2_def round_half_even_unique)
  have s4: "fadd (Finite 1) (Finite (4803839602528529 / 576460752303423488)) = Finite (2270564812132625 / 2251799813685248)"
    by (rule fadd_FiniteI, rule fl_eqI [where e = "0" and m = "4541129624265250"])
       (simp_all add: pow2_def round_half_even_unique)
  have s5: "fl 4 = Finite 4"
    by (rule fl_eqI [where e = "2" and m = "4503599627370496"])
       (simp_all add: pow2_def round_half_even_unique)
  have s6: "(2270564812132625 / 2251799813685248 :: rat) ^ nat 4 = 26578814892259690524672458862103717737985404984881308837890625 / 25711008708143844408671393477458601640355247900524685364822016"
    by (simp add: power_divide)
  have s7: "float_pow (Finite (2270564812132625 / 2251799813685248)) 4 = Inr (Finite (4655606561512135 / 4503599627370496))"
    by (rule float_pow_posI, simp add: s5, simp, simp, simp, simp only: s6, rule fl_eqI [where e = "0" and m = "4655606561512135"])
       (simp_all add: pow2_def round_half_even_unique)
  have s8: "fmul (Finite (4803839602528529 / 576460752303423488)) (Finite (4655606561512135 / 4503599627370496)) = Finite (4965980332279611 / 576460752303423488)"
    by (rule fmul_FiniteI, rule fl_eqI [where e = "- 7" and m = "4965980332279611"])
       (simp_all add: pow2_def round_half_even_unique)
  have s9: "fmul (Finite (5764607523034235 / 288230376151711744)) (Finite (4965980332279611 / 576460752303423488)) = Finite (3178227412658951 / 18446744073709551616)"
    by (rule fmul_FiniteI, rule fl_eqI [where e = "- 13" and m = "6356454825317902"])
       (simp_all add: pow2_def round_half_even_unique)
  have s10: "fsub (Finite (4655606561512135 / 4503599627370496)) (Finite 1) = Finite (152006934141639 / 4503599627370496)"
    by (rule fsub_FiniteI, rule fl_eqI [where e = "- 5" and m = "4864221892532448"])
       (simp_all add: pow2_def round_half_even_unique)
  have s11: "float_div (Finite (3178227412658951 / 18446744073709551616)) (Finite (152006934141639 / 4503599627370496)) = Inr (Finite (5885201829843977 / 1152921504606846976))"
    by (rule float_div_FiniteI, rule fl_eqI [where e = "- 8" and m = "5885201829843977"])
       (simp_all add: pow2_def round_half_even_unique)
  have s12: "round2 (Finite (5885201829843977 / 1152921504606846976)) = Finite (5764607523034235 / 576460752303423488)"
    by (rule round2_FiniteI [where n = "1"], simp add: round_half_even_unique, rule fl_eqI [where e = "- 7" and m = "5764607523034235"])
       (simp_all add: pow2_def round_half_even_unique)
  have s13: "fmul (Finite (5764607523034235 / 288230376151711744)) (Finite (4803839602528529 / 576460752303423488)) = Finite (6148914691236517 / 36893488147419103232)"
    by (rule fmul_FiniteI, rule fl_eqI [where e = "- 13" and m = "6148914691236517"])
       (simp_all add: pow2_def round_half_even_unique)
  have s14: "round2 (Finite (6148914691236517 / 36893488147419103232)) = Finite 0"
    by (rule round2_FiniteI [where n = 0]) (simp_all add: fl_def round_half_even_unique)
  have s15: "fsub (Finite (5764607523034235 / 576460752303423488)) (Finite 0) = Finite (5764607523034235 / 576460752303423488)"
    by (rule fsub_FiniteI, rule fl_eqI [where e = "- 7" and m = "5764607523034235"])
       (simp_all add: pow2_def round_half_even_unique)
  have s16: "fsub (Finite (5764607523034235 / 288230376151711744)) (Finite (5764607523034235 / 576460752303423488)) = Finite (5764607523034235 / 576460752303423488)"
    by (rule fsub_FiniteI, rule fl_eqI [where e = "- 7" and m = "5764607523034235"])
       (simp_all add: pow2_def round_half_even_unique)
  have s17: "fmul (Finite (5764607523034235 / 576460752303423488)) (Finite (4803839602528529 / 576460752303423488)) = Finite (6148914691236517 / 73786976294838206464)"
    by (rule fmul_FiniteI, rule fl_eqI [where e = "- 14" and m = "6148914691236517"])
       (simp_all add: pow2_def round_half_even_unique)
  have s18: "round2 (Finite (6148914691236517 / 73786976294838206464)) = Finite 0"
    by (rule round2_FiniteI [where n = 0]) (simp_all add: fl_def round_half_even_unique)
  have s19: "fsub (Finite (5764607523034235 / 576460752303423488)) (Finite (5764607523034235 / 576460752303423488)) = Finite 0"
    by (rule fsub_FiniteI) (simp_all add: fl_def)
  have s20: "fmul (Finite 0) (Finite (4803839602528529 / 576460752303423488)) = Finite 0"
    by (rule fmul_FiniteI) (simp_all add: fl_def)
  have s21: "round2 (Finite 0) = Finite 0"
    by (rule round2_FiniteI [where n = 0]) (simp_all add: fl_def round_half_even_unique)
  have s22: "fsub (Finite 0) (Finite (5764607523034235 / 576460752303423488)) = Finite (- (5764607523034235 / 576460752303423488))"
    by (rule fsub_FiniteI, rule fl_eqI [where e = "- 7" and m = "- 5764607523034235"])
       (simp_all add: pow2_def round_half_even_unique)
  have s23: "fmul (Finite (- (5764607523034235 / 576460752303423488))) (Finite (4803839602528529 / 576460752303423488)) = Finite (- (6148914691236517 / 73786976294838206464))"
    by (rule fmul_FiniteI, rule fl_eqI [where e = "- 14" and m = "- 6148914691236517"])
       (simp_all add: pow2_def round_half_even_unique)
  have s24: "round2 (Finite (- (6148914691236517 / 73786976294838206464))) = Finite 0"
    by (rule round2_FiniteI [where n = 0]) (simp_all add: fl_def round_half_even_unique)
  have s25: "fadd (Finite (- (5764607523034235 / 576460752303423488))) (Finite 0) = Finite (- (5764607523034235 / 576460752303423488))"
    by (rule fadd_FiniteI, rule fl_eqI [where e = "- 7" and m = "- 5764607523034235"])
       (simp_all add: pow2_def round_half_even_unique)
  have s26: "lit (1 / 100) = Finite (5764607523034235 / 576460752303423488)"
    unfolding lit_def by (rule fl_eqI [where e = "- 7" and m = "5764607523034235"])
       (simp_all add: pow2_def round_half_even_unique)
  have s27: "lit (- (1 / 100)) = Finite (- (5764607523034235 / 576460752303423488))"
    unfolding lit_def by (rule fl_eqI [where e = "- 7" and m = "- 5764607523034235"])
       (simp_all add: pow2_def round_half_even_unique)
  have calc: "calculate_amortization_amount (Finite (5764607523034235 / 288230376151711744)) (Finite (3602879701896397 / 36028797018963968)) 4 MONTHLY = Inr (Finite (5764607523034235 / 576460752303423488))"
    by (simp only: calculate_amortization_amount_def adjusted_interest_def frequency_value.simps
          of_int_numeral of_int_1 sum.case s1 s2 s3 s4 s5 s6 s7 s8 s9 s10 s11 s12 s13 s14 s15 s16 s17 s18 s19 s20 s21 s22 s23 s24 s25 s26 s27)
  have adj: "adjusted_interest (Finite (3602879701896397 / 36028797018963968)) MONTHLY = Inr (Finite (4803839602528529 / 576460752303423488))"
    by (simp only: adjusted_interest_def frequency_value.simps of_int_numeral of_int_1 s1 s2 s3 s4 s5 s6 s7 s8 s9 s10 s11 s12 s13 s14 s15 s16 s17 s18 s19 s20 s21 s22 s23 s24 s25 s26 s27)
  have u: "[1 .. 4 - 1] = [1, 2, 3]"
    by (simp add: upto_rec1)
  show ?thesis
    by (simp only: amortization_schedule_IntrI [OF calc adj] u schedule_loop_Cons schedule_loop.simps(1)
          fst_conv snd_conv append.simps s1 s2 s3 s4 s5 s6 s7 s8 s9 s10 s11 s12 s13 s14 s15 s16 s17 s18 s19 s20 s21 s22 s23 s24 s25 s26 s27)
qed

lemma ex_stalled:
  "amortization_schedule (lit (1 / 100)) (lit (1 / 10)) 3 MONTHLY =
     Inr [(1, Finite 0, Finite 0, Finite 0, lit (1 / 100)),
          (2, Finite 0, Finite 0, Finite 0, lit (1 / 100)),
          (3, lit (1 / 100), Finite 0, lit (1 / 100), Finite 0)]"
proof -
  have s1: "lit (1 / 100) = Finite (5764607523034235 / 576460752303423488)"
    unfolding lit_def by (rule fl_eqI [where e = "- 7" and m = "5764607523034235"])
       (simp_all add: pow2_def round_half_even_unique)
  have s2: "lit (1 / 10) = Finite (3602879701896397 / 36028797018963968)"
    unfolding lit_def by (rule fl_eqI [where e = "- 4" and m = "7205759403792794"])
       (simp_all add: pow2_def round_half_even_unique)
  have s3: "float_div (Finite (3602879701896397 / 36028797018963968)) (Finite 12) = Inr (Finite (4803839602528529 / 576460752303423488))"
    by (rule float_div_FiniteI, rule fl_eqI [where e = "- 7" and m = "4803839602528529"])
       (simp_all add: pow2_def round_half_even_unique)
  have s4: "fadd (Finite 1) (Finite (4803839602528529 / 576460752303423488)) = Finite (2270564812132625 / 2251799813685248)"
    by (rule fadd_FiniteI, rule fl_eqI [where e = "0" and m = "4541129624265250"])
       (simp_all add: pow2_def round_half_even_unique)
  have s5: "fl 3 = Finite 3"
    by (rule fl_eqI [where e = "1" and m = "6755399441055744"])
       (simp_all add: pow2_def round_half_even_unique)
  have s6: "(2270564812132625 / 2251799813685248 :: rat) ^ nat 3 = 11705816433971586898756615254749275855431640625 / 11417981541647679048466287755595961091061972992"
    by (simp add: power_divide)
  have s7: "float_pow (Finite (2270564812132625 / 2251799813685248)) 3 = Inr (Finite (4617130474226911 / 4503599627370496))"
    by (rule float_pow_posI, simp add: s5, simp, simp, simp, simp only: s6, rule fl_eqI [where e = "0" and m = "4617130474226911"])
       (simp_all add: pow2_def round_half_even_unique)
  have s8: "fmul (Finite (4803839602528529 / 576460752303423488)) (Finite (4617130474226911 / 4503599627370496)) = Finite (4924939172508705 / 576460752303423488)"
    by (rule fmul_FiniteI, rule fl_eqI [where e = "- 7" and m = "4924939172508705"])
       (simp_all add: pow2_def round_half_even_unique)
  have s9: "fmul (Finite (5764607523034235 / 576460752303423488)) (Finite (4924939172508705 / 576460752303423488)) = Finite (6303922140811143 / 73786976294838206464)"
    by (rule fmul_FiniteI, rule fl_eqI [where e = "- 14" and m = "6303922140811143"])
       (simp_all add: pow2_def round_half_even_unique)
  have s10: "fsub (Finite (4617130474226911 / 4503599627370496)) (Finite 1) = Finite (113530846856415 / 4503599627370496)"
    by (rule fsub_FiniteI, rule fl_eqI [where e = "- 6" and m = "7265974198810560"])
       (simp_all add: pow2_def round_half_even_unique)
  have s11: "float_div (Finite (6303922140811143 / 73786976294838206464)) (Finite (113530846856415 / 4503599627370496)) = Inr (Finite (3907300057434443 / 1152921504606846976))"
    by (rule float_div_FiniteI, rule fl_eqI [where e = "- 9" and m = "7814600114868886"])
       (simp_all add: pow2_def round_half_even_unique)
  have s12: "round2 (Finite (3907300057434443 / 1152921504606846976)) = Finite 0"
    by (rule round2_FiniteI [where n = 0]) (simp_all add: fl_def round_half_even_unique)
  have s13: "fmul (Finite (5764607523034235 / 576460752303423488)) (Finite (4803839602528529 / 576460752303423488)) = Finite (6148914691236517 / 73786976294838206464)"
    by (rule fmul_FiniteI, rule fl_eqI [where e = "- 14" and m = "6148914691236517"])
       (simp_all add: pow2_def round_half_even_unique)
  have s14: "round2 (Finite (6148914691236517 / 73786976294838206464)) = Finite 0"
    by (rule round2_FiniteI [where n = 0]) (simp_all add: fl_def round_half_even_unique)
  have s15: "fsub (Finite 0) (Finite 0) = Finite 0"
    by (rule fsub_FiniteI) (simp_all add: fl_def)
  have s16: "fsub (Finite (5764607523034235 / 576460752303423488)) (Finite 0) = Finite (5764607523034235 / 576460752303423488)"
    by (rule fsub_FiniteI, rule fl_eqI [where e = "- 7" and m = "5764607523034235"])
       (simp_all add: pow2_def round_half_even_unique)
  have s17: "fadd (Finite (5764607523034235 / 576460752303423488)) (Finite 0) = Finite (5764607523034235 / 576460752303423488)"
    by (rule fadd_FiniteI, rule fl_eqI [where e = "- 7" and m = "5764607523034235"])
       (simp_all add: pow2_def round_half_even_unique)
  have calc: "calculate_amortization_amount (Finite (5764607523034235 / 576460752303423488)) (Finite (3602879701896397 / 36028797018963968)) 3 MONTHLY = Inr (Finite 0)"
    by (simp only: calculate_amortization_amount_def adjusted_interest_def frequency_value.simps
          of_int_numeral of_int_1 sum.case s1 s2 s3 s4 s5 s6 s7 s8 s9 s10 s11 s12 s13 s14 s15 s16 s17)
  have adj: "adjusted_interest (Finite (3602879701896397 / 36028797018963968)) MONTHLY = Inr (Finite (4803839602528529 / 576460752303423488))"
    by (simp only: adjusted_interest_def frequency_value.simps of_int_numeral of_int_1 s1 s2 s3 s4 s5 s6 s7 s8 s9 s10 s11 s12 s13 s14 s15 s16 s17)
  have u: "[1 .. 3 - 1] = [1, 2]"
    by (simp add: upto_rec1)
  show ?thesis
    by (simp only: amortization_schedule_IntrI [OF calc adj] u schedule_loop_Cons schedule_loop.simps(1)
          fst_conv snd_conv append.simps s1 s2 s3 s4 s5 s6 s7 s8 s9 s10 s11 s12 s13 s14 s15 s16 s17)
qed

lemma ex_loan_schedule:
  "loan_schedule_of \<lparr>amount = Finite 1000, annual_interest_rate = Finite 5, loan_term_months = 2, frequency = MONTHLY\<rparr> =
     Inr [(1, lit (50313 / 100), lit (417 / 100), lit (49896 / 100), lit (50104 / 100)),
          (2, lit (50313 / 100), lit (209 / 100), lit (50104 / 100), Finite 0)]"
proof -
  have s1: "float_div (Finite 5) (Finite 100) = Inr (Finite (3602879701896397 / 72057594037927936))"
    by (rule float_div_FiniteI, rule fl_eqI [where e = "- 5" and m = "7205759403792794"])
       (simp_all add: pow2_def round_half_even_unique)
  have s2: "float_div (Finite (3602879701896397 / 72057594037927936)) (Finite 12) = Inr (Finite (4803839602528529 / 1152921504606846976))"
    by (rule float_div_FiniteI, rule fl_eqI [where e = "- 8" and m = "4803839602528529"])
       (simp_all add: pow2_def round_half_even_unique)
  have s3: "fadd (Finite 1) (Finite (4803839602528529 / 1152921504606846976)) = Finite (4522364625817873 / 4503599627370496)"
    by (rule fadd_FiniteI, rule fl_eqI [where e = "0" and m = "4522364625817873"])
       (simp_all add: pow2_def round_half_even_unique)
  have s4: "fl 2 = Finite 2"
    by (rule fl_eqI [where e = "1" and m = "4503599627370496"])
       (simp_all add: pow2_def round_half_even_unique)
  have s5: "(4522364625817873 / 4503599627370496 :: rat) ^ nat 2 = 20451781808848830471554166244129 / 20282409603651670423947251286016"
    by (simp add: power_divide)
  have s6: "float_pow (Finite (4522364625817873 / 4503599627370496)) 2 = Inr (Finite (4541207811758781 / 4503599627370496))"
    by (rule float_pow_posI, simp add: s4, simp, simp, simp, simp only: s5, rule fl_eqI [where e = "0" and m = "4541207811758781"])
       (simp_all add: pow2_def round_half_even_unique)
  have s7: "fmul (Finite (4803839602528529 / 1152921504606846976)) (Finite (4541207811758781 / 4503599627370496)) = Finite (2421977499604683 / 576460752303423488)"
    by (rule fmul_FiniteI, rule fl_eqI [where e = "- 8" and m = "4843954999209366"])
       (simp_all add: pow2_def round_half_even_unique)
  have s8: "fmul (Finite 1000) (Finite (2421977499604683 / 576460752303423488)) = Finite (1182606200978849 / 281474976710656)"
    by (rule fmul_FiniteI, rule fl_eqI [where e = "2" and m = "4730424803915396"])
       (simp_all add: pow2_def round_half_even_unique)
  have s9: "fsub (Finite (4541207811758781 / 4503599627370496)) (Finite 1) = Finite (37608184388285 / 4503599627370496)"
    by (rule fsub_FiniteI, rule fl_eqI [where e = "- 7" and m = "4813847601700480"])
       (simp_all add: pow2_def round_half_even_unique)
  have s10: "float_div (Finite (1182606200978849 / 281474976710656)) (Finite (37608184388285 / 4503599627370496)) = Inr (Finite (8851106701712769 / 17592186044416))"
    by (rule float_div_FiniteI, rule fl_eqI [where e = "8" and m = "8851106701712769"])
       (simp_all add: pow2_def round_half_even_unique)
  have s11: "round2 (Finite (8851106701712769 / 17592186044416)) = Finite (4425578282263511 / 8796093022208)"
    by (rule round2_FiniteI [where n = "50313"], simp add: round_half_even_unique, rule fl_eqI [where e = "8" and m = "8851156564527022"])
       (simp_all add: pow2_def round_half_even_unique)
  have s12: "fmul (Finite 1000) (Finite (4803839602528529 / 1152921504606846976)) = Finite (4691249611844267 / 1125899906842624)"
    by (rule fmul_FiniteI, rule fl_eqI [where e = "2" and m = "4691249611844267"])
       (simp_all add: pow2_def round_half_even_unique)
  have s13: "round2 (Finite (4691249611844267 / 1125899906842624)) = Finite (2347501305766871 / 562949953421312)"
    by (rule round2_FiniteI [where n = "417"], simp add: round_half_even_unique, rule fl_eqI [where e = "2" and m = "4695002611533742"])
       (simp_all add: pow2_def round_half_even_unique)
  have s14: "fsub (Finite (4425578282263511 / 8796093022208)) (Finite (2347501305766871 / 562949953421312)) = Finite (8777797148721807 / 17592186044416)"
    by (rule fsub_FiniteI, rule fl_eqI [where e = "8" and m = "8777797148721807"])
       (simp_all add: pow2_def round_half_even_unique)
  have s15: "fsub (Finite 1000) (Finite (8777797148721807 / 17592186044416)) = Finite (8814388895694193 / 17592186044416)"
    by (rule fsub_FiniteI, rule fl_eqI [where e = "8" and m = "8814388895694193"])
       (simp_all add: pow2_def round_half_even_unique)
  have s16: "fmul (Finite (8814388895694193 / 17592186044416)) (Finite (4803839602528529 / 1152921504606846976)) = Finite (4701007411036903 / 2251799813685248)"
    by (rule fmul_FiniteI, rule fl_eqI [where e = "1" and m = "4701007411036903"])
       (simp_all add: pow2_def round_half_even_unique)
  have s17: "round2 (Finite (4701007411036903 / 2251799813685248)) = Finite (588282701325271 / 281474976710656)"
    by (rule round2_FiniteI [where n = "209"], simp add: round_half_even_unique, rule fl_eqI [where e = "1" and m = "4706261610602168"])
       (simp_all add: pow2_def round_half_even_unique)
  have s18: "fadd (Finite (8814388895694193 / 17592186044416)) (Finite (588282701325271 / 281474976710656)) = Finite (4425578282263511 / 8796093022208)"
    by (rule fadd_FiniteI, rule fl_eqI [where e = "8" and m = "8851156564527022"])
       (simp_all add: pow2_def round_half_even_unique)
  have s19: "lit (50313 / 100) = Finite (4425578282263511 / 8796093022208)"
    unfolding lit_def by (rule fl_eqI [where e = "8" and m = "8851156564527022"])
       (simp_all add: pow2_def round_half_even_unique)
  have s20: "lit (417 / 100) = Finite (2347501305766871 / 562949953421312)"
    unfolding lit_def by (rule fl_eqI [where e = "2" and m = "4695002611533742"])
       (simp_all add: pow2_def round_half_even_unique)
  have s21: "lit (49896 / 100) = Finite (8777797148721807 / 17592186044416)"
    unfolding lit_def by (rule fl_eqI [where e = "8" and m = "8777797148721807"])
       (simp_all add: pow2_def round_half_even_unique)
  have s22: "lit (50104 / 100) = Finite (8814388895694193 / 17592186044416)"
    unfolding lit_def by (rule fl_eqI [where e = "8" and m = "8814388895694193"])
       (simp_all add: pow2_def round_half_even_unique)
  have s23: "lit (209 / 100) = Finite (588282701325271 / 281474976710656)"
    unfolding lit_def by (rule fl_eqI [where e = "1" and m = "4706261610602168"])
       (simp_all add: pow2_def round_half_even_unique)
  have calc: "calculate_amortization_amount (Finite 1000) (Finite (3602879701896397 / 72057594037927936)) 2 MONTHLY = Inr (Finite (4425578282263511 / 8796093022208))"
    by (simp only: calculate_amortization_amount_def adjusted_interest_def frequency_value.simps
          of_int_numeral of_int_1 sum.case s1 s2 s3 s4 s5 s6 s7 s8 s9 s10 s11 s12 s13 s14 s15 s16 s17 s18 s19 s20 s21 s22 s23)
  have adj: "adjusted_interest (Finite (3602879701896397 / 72057594037927936)) MONTHLY = Inr (Finite (4803839602528529 / 1152921504606846976))"
    by (simp only: adjusted_interest_def frequency_value.simps of_int_numeral of_int_1 s1 s2 s3 s4 s5 s6 s7 s8 s9 s10 s11 s12 s13 s14 s15 s16 s17 s18 s19 s20 s21 s22 s23)
  have u: "[1 .. 2 - 1] = [1]"
    by (simp add: upto_rec1)
  show ?thesis
    by (simp only: loan_schedule_of_def Loan.simps sum.case amortization_schedule_IntrI [OF calc adj] u
          schedule_loop_Cons schedule_loop.simps(1) fst_conv snd_conv append.simps s1 s2 s3 s4 s5 s6 s7 s8 s9 s10 s11 s12 s13 s14 s15 s16 s17 s18 s19 s20 s21 s22 s23)
qed

lemma ex_loan_amount:
  "float_div (Finite 5) (Finite 100) = Inr (Finite (3602879701896397 / 72057594037927936)) \<and>
   calculate_amortization_amount (Finite 1000) (Finite (3602879701896397 / 72057594037927936)) 12 MONTHLY = Inr (Finite (6024268189049815 / 70368744177664)) \<and>
   adjusted_interest (Finite (3602879701896397 / 72057594037927936)) MONTHLY = Inr (Finite (4803839602528529 / 1152921504606846976))"
proof -
  have s1: "float_div (Finite 5) (Finite 100) = Inr (Finite (3602879701896397 / 72057594037927936))"
    by (rule float_div_FiniteI, rule fl_eqI [where e = "- 5" and m = "7205759403792794"])
       (simp_all add: pow2_def round_half_even_unique)
  have s2: "float_div (Finite (3602879701896397 / 72057594037927936)) (Finite 12) = Inr (Finite (4803839602528529 / 1152921504606846976))"
    by (rule float_div_FiniteI, rule fl_eqI [where e = "- 8" and m = "4803839602528529"])
       (simp_all add: pow2_def round_half_even_unique)
  have s3: "fadd (Finite 1) (Finite (4803839602528529 / 1152921504606846976)) = Finite (4522364625817873 / 4503599627370496)"
    by (rule fadd_FiniteI, rule fl_eqI [where e = "0" and m = "4522364625817873"])
       (simp_all add: pow2_def round_half_even_unique)
  have s4: "fl 12 = Finite 12"
    by (rule fl_eqI [where e = "3" and m = "6755399441055744"])
       (simp_all add: pow2_def round_half_even_unique)
  have s5: "(4522364625817873 / 4503599627370496 :: rat) ^ nat 12 = 73179073159674878326735060451486749584745717466948530619145092321995550588412405711103820257506824085334135299773593959438525455974992111467445656824417117011814383118813188051762531798721 / 69617318994479297159441705409245167921344429126717528237597542082203295398081625160307507496908132931192662194421301381083506846944815643283884602656894137393981852330936660004926669193216"
    by (simp add: power_divide)
  have s6: "float_pow (Finite (4522364625817873 / 4503599627370496)) 12 = Inr (Finite (1183503082901559 / 1125899906842624))"
    by (rule float_pow_posI, simp add: s4, simp, simp, simp, simp only: s5, rule fl_eqI [where e = "0" and m = "4734012331606236"])
       (simp_all add: pow2_def round_half_even_unique)
  have s7: "fmul (Finite (4803839602528529 / 1152921504606846976)) (Finite (1183503082901559 / 1125899906842624)) = Finite (2524806576856659 / 576460752303423488)"
    by (rule fmul_FiniteI, rule fl_eqI [where e = "- 8" and m = "5049613153713318"])
       (simp_all add: pow2_def round_half_even_unique)
  have s8: "fmul (Finite 1000) (Finite (2524806576856659 / 576460752303423488)) = Finite (2465631422711581 / 562949953421312)"
    by (rule fmul_FiniteI, rule fl_eqI [where e = "2" and m = "4931262845423162"])
       (simp_all add: pow2_def round_half_even_unique)
  have s9: "fsub (Finite (1183503082901559 / 1125899906842624)) (Finite 1) = Finite (57603176058935 / 1125899906842624)"
    by (rule fsub_FiniteI, rule fl_eqI [where e = "- 5" and m = "7373206535543680"])
       (simp_all add: pow2_def round_half_even_unique)
  have s10: "float_div (Finite (2465631422711581 / 562949953421312)) (Finite (57603176058935 / 1125899906842624)) = Inr (Finite (753011373208337 / 8796093022208))"
    by (rule float_div_FiniteI, rule fl_eqI [where e = "6" and m = "6024090985666696"])
       (simp_all add: pow2_def round_half_even_unique)
  have s11: "round2 (Finite (753011373208337 / 8796093022208)) = Finite (6024268189049815 / 70368744177664)"
    by (rule round2_FiniteI [where n = "8561"], simp add: round_half_even_unique, rule fl_eqI [where e = "6" and m = "6024268189049815"])
       (simp_all add: pow2_def round_half_even_unique)
  show ?thesis
    by (simp only: calculate_amortization_amount_def adjusted_interest_def frequency_value.simps
          of_int_numeral of_int_1 sum.case simp_thms s1 s2 s3 s4 s5 s6 s7 s8 s9 s10 s11)
qed

section \<open>The claims\<close>

subsection \<open>C1: the documented reference payments\<close>

text \<open>
  Claim C1. The payment calculator returns the documented reference values: for principal
  150000, annual rate 0.10 and 36 periods, \<^verbatim>\<open>calculate_amortization_amount\<close> returns exactly
  4840.08 with the MONTHLY frequency and exactly 4495.63 with the SEMIMONTHLY frequency
  (the floats these two literals denote).
\<close>

theorem reference_payments:
  "calculate_amortization_amount (Finite 150000) (lit (1 / 10)) 36 MONTHLY =
     Inr (lit (484008 / 100)) \<and>
   calculate_amortization_amount (Finite 150000) (lit (1 / 10)) 36 SEMIMONTHLY =
     Inr (lit (449563 / 100))"
  using ex_reference_monthly ex_reference_semimonthly by (rule conjI)

subsection \<open>C2: the final row\<close>

text \<open>
  Claim C2. For a positive number of periods, the last row of every schedule the generator
  produces has the remaining balance exactly 0; its principal component is the balance that
  remains after the first \<open>T - 1\<close> periods, its interest is that balance times the rate per
  period, rounded to two places, and its payment is that balance plus that interest. (A run
  that raises, as for a rate of zero, yields no row at all.)
\<close>

theorem final_row_zero_balance:
  assumes "0 < T"
    and "amortization_schedule P rate T f = Inr rows"
    and "adjusted_interest rate f = Inr adj"
  shows "rows \<noteq> [] \<and> row_number (last rows) = T \<and> row_balance (last rows) = Finite 0 \<and>
    row_principal (last rows) = balance_after P rows (nat T - 1) \<and>
    row_interest (last rows) = round2 (fmul (balance_after P rows (nat T - 1)) adj) \<and>
    row_amount (last rows) = fadd (balance_after P rows (nat T - 1)) (row_interest (last rows))"
proof -
  from assms(2) obtain amt adj' L b where
    adj': "adjusted_interest rate f = Inr adj'"
    and loop: "schedule_loop amt adj' P [1 .. T - 1] = (L, b)"
    and rows: "rows = L @ [(T, fadd b (round2 (fmul b adj')), round2 (fmul b adj'), b, Finite 0)]"
    by (rule schedule_rows)
  have adj: "adj' = adj" using adj' assms(3) by simp
  have len: "length L = nat T - 1"
    using schedule_loop_length [of amt adj' P "[1 .. T - 1]"] assms(1)
    by (simp add: loop nat_diff_distrib)
  have b: "b = balance_after P rows (nat T - 1)"
  proof (cases "T = 1")
    case True
    then show ?thesis using loop by (simp add: balance_after_def)
  next
    case False
    then have ne: "[1 .. T - 1] \<noteq> []" using assms(1) by simp
    then have L: "L \<noteq> []" using len assms(1) False by auto
    have "b = row_balance (last L)"
      using schedule_loop_snd [of amt adj' P "[1 .. T - 1]"] ne by (simp add: loop)
    also have "last L = L ! (nat T - 1 - 1)" using L by (simp add: last_conv_nth len)
    also have "\<dots> = rows ! (nat T - 1 - 1)"
    proof -
      have "0 < length L" using L by simp
      then have "nat T - 1 - 1 < length L" unfolding len by arith
      then show ?thesis by (simp add: rows nth_append)
    qed
    finally show ?thesis using L len by (auto simp: balance_after_def)
  qed
  show ?thesis
    unfolding b [symmetric]
    by (simp add: rows adj row_number_def row_balance_def row_principal_def row_interest_def
        row_amount_def)
qed

theorem final_row_zero_balance_witness:
  "row_number (last (projr (amortization_schedule (Finite (23 / 2)) (lit (1 / 10)) 2 YEARLY))) = 2 \<and>
   row_balance (last (projr (amortization_schedule (Finite (23 / 2)) (lit (1 / 10)) 2 YEARLY))) = Finite 0 \<and>
   row_principal (last (projr (amortization_schedule (Finite (23 / 2)) (lit (1 / 10)) 2 YEARLY))) =
     lit (602 / 100) \<and>
   row_interest (last (projr (amortization_schedule (Finite (23 / 2)) (lit (1 / 10)) 2 YEARLY))) =
     round2 (fmul (lit (602 / 100)) (lit (1 / 10)))"
proof -
  have adj: "adjusted_interest (lit (1 / 10)) YEARLY = Inr (lit (1 / 10))"
    using ex_rate_yearly by (simp only: lit_tenth)
  have pos: "(0::int) < 2" by simp
  from final_row_zero_balance [OF pos ex_two_periods adj]
  show ?thesis
    by (simp add: ex_two_periods balance_after_def row_balance_def del: round2.simps fmul.simps)
qed

subsection \<open>C3: the number of rows\<close>

text \<open>
  Claim C3. For every positive integer \<open>T\<close>, a schedule generated for \<open>T\<close> periods has exactly
  \<open>T\<close> rows, and their period numbers are 1, 2, ..., \<open>T\<close> in this order.
\<close>

theorem schedule_length_and_numbers:
  assumes "0 < T" and "amortization_schedule P rate T f = Inr rows"
  shows "length rows = nat T \<and> map row_number rows = [1 .. T]"
  using assms by (rule schedule_length)

theorem schedule_length_and_numbers_witness:
  "length (projr (amortization_schedule (Finite (23 / 2)) (lit (1 / 10)) 2 YEARLY)) = 2 \<and>
   map row_number (projr (amortization_schedule (Finite (23 / 2)) (lit (1 / 10)) 2 YEARLY)) = [1, 2]"
proof -
  have pos: "(0::int) < 2" by simp
  from schedule_length_and_numbers [OF pos ex_two_periods]
  show ?thesis by (simp add: ex_two_periods upto_rec1)
qed

subsection \<open>C4: an annual rate of zero\<close>

text \<open>
  Claim C4 says that the payment calculator does not fail on an annual rate of exactly zero
  and returns \<open>round(P / N, 2)\<close>. The code has no such path: the growth factor is 1, the
  divisor \<open>x - 1\<close> is zero, and the division raises. The test suite of the repository expects
  exactly this error for a zero rate.
\<close>

theorem zero_rate_counterexample:
  "calculate_amortization_amount (Finite 150000) (Finite 0) 36 MONTHLY = Inl ZeroDivisionError"
  by (rule calculate_zero_rate) simp

text \<open>
  Claim C4 as amended. With an annual rate of exactly zero the payment calculator raises
  \<^verbatim>\<open>ZeroDivisionError\<close>, for every principal, every frequency and every number of periods
  that converts to a float.
\<close>

theorem zero_rate_division_error:
  assumes "\<bar>N\<bar> \<le> 2 ^ 1023"
  shows "calculate_amortization_amount P (Finite 0) N f = Inl ZeroDivisionError"
  using assms by (rule calculate_zero_rate)

theorem zero_rate_division_error_witness:
  "calculate_amortization_amount (Finite 1000) (Finite 0) 12 QUARTERLY = Inl ZeroDivisionError"
  by (rule zero_rate_division_error) simp

subsection \<open>C5: a number of periods that is not positive\<close>

text \<open>
  Claim C5 says that the engine validates the number of periods and fails with an
  invalid-argument error when it is zero or negative. The engine validates nothing: for a
  negative number of periods the loop runs over an empty range and the generator yields one
  row, here for 1000 at 10 percent over -1 monthly periods.
\<close>

theorem negative_period_counterexample:
  "amortization_schedule (Finite 1000) (lit (1 / 10)) (- 1) MONTHLY =
     Inr [(- 1, lit (100833 / 100), lit (833 / 100), Finite 1000, Finite 0)]"
  by (rule ex_negative_period)

text \<open>
  Claim C5 as amended. The engine does not validate the number of periods. For zero periods
  it always fails, with the \<^verbatim>\<open>ZeroDivisionError\<close> of the payment formula. For a negative
  number of periods it yields, whenever the payment formula returns, exactly one row: the
  closing row, numbered with that negative number, on the whole principal.
\<close>

theorem no_term_validation:
  "amortization_schedule P rate 0 f = Inl ZeroDivisionError \<and>
   (T < 0 \<longrightarrow> calculate_amortization_amount P rate T f = Inr amt \<longrightarrow>
      adjusted_interest rate f = Inr adj \<longrightarrow>
      amortization_schedule P rate T f =
        Inr [(T, fadd P (round2 (fmul P adj)), round2 (fmul P adj), P, Finite 0)])"
  using single_row_without_loop [of T P rate f amt adj]
  by (simp add: amortization_schedule_period_0)

theorem no_term_validation_witness:
  "amortization_schedule (Finite 1000) (lit (1 / 10)) 0 MONTHLY = Inl ZeroDivisionError \<and>
   length (projr (amortization_schedule (Finite 1000) (lit (1 / 10)) (- 1) MONTHLY)) = 1 \<and>
   row_number (hd (projr (amortization_schedule (Finite 1000) (lit (1 / 10)) (- 1) MONTHLY))) = - 1"
  using no_term_validation [of "Finite 1000" "lit (1 / 10)" MONTHLY "- 1"]
    ex_negative_period_amount ex_rate_monthly
  by (simp add: row_number_def del: round2.simps fmul.simps fadd.simps)

subsection \<open>C6: the remaining balance from row to row\<close>

text \<open>
  Claim C6 says that the remaining balance never increases from a row to the next and
  strictly decreases until it reaches zero. Both parts fail. For 0.02 at 10 percent over 4
  monthly periods the payment rounds up to 0.01, the balance reaches -0.01 in the third row,
  and the closing row raises it to 0. For 0.01 at 10 percent over 3 monthly periods the
  payment rounds to 0.00 and the balance stays at 0.01 for two rows.
\<close>

theorem balance_counterexample:
  "balances (amortization_schedule (lit (2 / 100)) (lit (1 / 10)) 4 MONTHLY) =
     [lit (1 / 100), Finite 0, lit (- (1 / 100)), Finite 0] \<and>
   \<not> non_increasing (balances (amortization_schedule (lit (2 / 100)) (lit (1 / 10)) 4 MONTHLY)) \<and>
   balances (amortization_schedule (lit (1 / 100)) (lit (1 / 10)) 3 MONTHLY) =
     [lit (1 / 100), lit (1 / 100), Finite 0] \<and>
   \<not> decreasing_until_zero (balances (amortization_schedule (lit (1 / 100)) (lit (1 / 10)) 3 MONTHLY))"
proof -
  have 1: "balances (amortization_schedule (lit (2 / 100)) (lit (1 / 10)) 4 MONTHLY) =
      [lit (1 / 100), Finite 0, lit (- (1 / 100)), Finite 0]"
    by (simp only: ex_overshoot balances_def sum.case list.map row_balance_def snd_conv)
  have 2: "balances (amortization_schedule (lit (1 / 100)) (lit (1 / 10)) 3 MONTHLY) =
      [lit (1 / 100), lit (1 / 100), Finite 0]"
    by (simp only: ex_stalled balances_def sum.case list.map row_balance_def snd_conv)
  have 3: "\<not> non_increasing [lit (1 / 100), Finite 0, lit (- (1 / 100)), Finite 0]"
    unfolding lit_cent lit_minus_cent by simp
  have 4: "\<not> decreasing_until_zero [lit (1 / 100), lit (1 / 100), Finite 0]"
    unfolding lit_cent by simp
  show ?thesis unfolding 1 2 using 3 4 by (simp only: simp_thms)
qed

text \<open>
  Claim C6 as amended. For a principal that is a finite float, the remaining balance never
  increases from the principal through the rows before the closing row, provided that in
  each of these rows the interest is finite and at most the fixed payment. Nothing is said
  about a strict decrease, nor about the step to the closing row, whose balance is 0.
\<close>

theorem balance_non_increasing_before_last:
  assumes "amortization_schedule (Finite p) rate T f = Inr rows"
    and "fl p = Finite p"
    and "\<forall>r \<in> set (butlast rows). finite_le (row_interest r) (row_amount r)"
  shows "non_increasing (Finite p # map row_balance (butlast rows))"
proof -
  from assms(1) obtain amt adj L b where
    loop: "schedule_loop amt adj (Finite p) [1 .. T - 1] = (L, b)"
    and rows: "rows = L @ [(T, fadd b (round2 (fmul b adj)), round2 (fmul b adj), b, Finite 0)]"
    by (rule schedule_rows)
  have L: "butlast rows = fst (schedule_loop amt adj (Finite p) [1 .. T - 1])"
    by (simp add: rows loop)
  show ?thesis
    unfolding L
    by (rule schedule_loop_non_increasing) (use assms(2,3) in \<open>simp_all add: L\<close>)
qed

theorem balance_non_increasing_before_last_witness:
  "non_increasing (Finite (23 / 2) #
     map row_balance (butlast (projr (amortization_schedule (Finite (23 / 2)) (lit (1 / 10)) 2 YEARLY))))"
proof -
  have "\<forall>r \<in> set (butlast [(1, lit (663 / 100), lit (115 / 100), lit (548 / 100), lit (602 / 100)),
      (2, lit (6619999999999999 / 1000000000000000), lit (6 / 10), lit (602 / 100), Finite 0)]).
      finite_le (row_interest r) (row_amount r)"
    unfolding butlast.simps list.set ball_simps row_interest_def row_amount_def fst_conv snd_conv
      lit_663 lit_115 if_False if_True
    by simp
  from balance_non_increasing_before_last [OF ex_two_periods ex_principal_float this]
  show ?thesis by (simp only: ex_two_periods sum.sel)
qed

subsection \<open>C7: a single period\<close>

text \<open>
  Claim C7. A schedule generated for one period has exactly one row; its principal component
  is the original principal, its remaining balance is 0, and its interest is the principal
  times the rate per period, rounded to two places.
\<close>

theorem single_period_row:
  assumes "amortization_schedule P rate 1 f = Inr rows"
    and "adjusted_interest rate f = Inr adj"
  shows "length rows = 1 \<and> row_number (hd rows) = 1 \<and> row_principal (hd rows) = P \<and>
    row_balance (hd rows) = Finite 0 \<and> row_interest (hd rows) = round2 (fmul P adj) \<and>
    row_amount (hd rows) = fadd P (round2 (fmul P adj))"
proof -
  from assms(1) obtain amt where "calculate_amortization_amount P rate 1 f = Inr amt"
    by (rule amortization_schedule_Inr)
  from single_row_without_loop [OF _ this assms(2)] assms(1)
  have "rows = [(1, fadd P (round2 (fmul P adj)), round2 (fmul P adj), P, Finite 0)]" by simp
  then show ?thesis
    by (simp add: row_number_def row_principal_def row_balance_def row_interest_def row_amount_def)
qed

theorem single_period_row_witness:
  "length (projr (amortization_schedule (Finite 150000) (lit (1 / 10)) 1 MONTHLY)) = 1 \<and>
   row_principal (hd (projr (amortization_schedule (Finite 150000) (lit (1 / 10)) 1 MONTHLY))) =
     Finite 150000 \<and>
   row_balance (hd (projr (amortization_schedule (Finite 150000) (lit (1 / 10)) 1 MONTHLY))) =
     Finite 0"
  using single_period_row [OF ex_one_period ex_rate_monthly]
  by (simp add: ex_one_period)

subsection \<open>C8: a summary beyond the last period\<close>

text \<open>
  Claim C8. For every loan, with a number of periods that is not negative, and every
  requested month greater than that number, the summary is the same as the summary
  requested at the number of periods itself: the same three totals, or the same error.
  The slice of the schedule stops at its end and no index error arises.
\<close>

theorem summary_capped:
  assumes "db loan_id = Some db_loan"
    and "0 \<le> loan_term_months db_loan"
    and "loan_term_months db_loan < month"
  shows "get_loan_summary db loan_id month =
    get_loan_summary db loan_id (loan_term_months db_loan)"
proof (cases "loan_schedule_of db_loan")
  case (Inl e)
  then show ?thesis by (simp add: get_loan_summary_def assms(1))
next
  case (Inr rows)
  from loan_schedule_of_length [OF assms(2) Inr]
  have "slice_to rows month = rows" "slice_to rows (loan_term_months db_loan) = rows"
    using assms(3) by (simp_all add: slice_to_all)
  then show ?thesis by (simp add: get_loan_summary_def assms(1) Inr)
qed

theorem summary_capped_witness:
  "get_loan_summary
     [1 \<mapsto> \<lparr>amount = Finite 1000, annual_interest_rate = Finite 5, loan_term_months = 2,
            frequency = MONTHLY\<rparr>] 1 5 =
   get_loan_summary
     [1 \<mapsto> \<lparr>amount = Finite 1000, annual_interest_rate = Finite 5, loan_term_months = 2,
            frequency = MONTHLY\<rparr>] 1 2"
  using summary_capped [of "[1 \<mapsto> \<lparr>amount = Finite 1000, annual_interest_rate = Finite 5,
      loan_term_months = 2, frequency = MONTHLY\<rparr>]" 1 _ 5]
  by simp

subsection \<open>C9: the summary at month zero\<close>

text \<open>
  Claim C9 says that the summary requested at month 0 has zero totals and, as current
  balance, the original principal. The code starts the current balance at 0 and no row
  changes it: for a loan of 1000 the summary at month 0 has the current balance 0.
\<close>

theorem summary_month_zero_counterexample:
  "get_loan_summary
     [7 \<mapsto> \<lparr>amount = Finite 1000, annual_interest_rate = Finite 5, loan_term_months = 12,
            frequency = MONTHLY\<rparr>] 7 0 =
   Inr \<lparr>current_principal_balance = Finite 0, aggregate_principal_paid = Finite 0,
        aggregate_interest_paid = Finite 0\<rparr>"
proof -
  from ex_loan_amount have
    r: "float_div (Finite 5) (Finite 100) = Inr (Finite (3602879701896397 / 72057594037927936))"
    and c: "calculate_amortization_amount (Finite 1000) (Finite (3602879701896397 / 72057594037927936)) 12 MONTHLY = Inr (Finite (6024268189049815 / 70368744177664))"
    and a: "adjusted_interest (Finite (3602879701896397 / 72057594037927936)) MONTHLY = Inr (Finite (4803839602528529 / 1152921504606846976))"
    by blast+
  have "\<exists>rows. loan_schedule_of \<lparr>amount = Finite 1000, annual_interest_rate = Finite 5,
      loan_term_months = 12, frequency = MONTHLY\<rparr> = Inr rows"
    unfolding loan_schedule_of_def Loan.simps r sum.case amortization_schedule_IntrI [OF c a]
    by blast
  then obtain rows where "loan_schedule_of \<lparr>amount = Finite 1000, annual_interest_rate = Finite 5,
      loan_term_months = 12, frequency = MONTHLY\<rparr> = Inr rows" by blast
  then show ?thesis by (intro get_loan_summary_month_0) simp_all
qed

text \<open>
  Claim C9 as amended. The summary requested at month 0 folds over no rows: whenever the
  schedule of the loan is produced, the two totals are zero and the current balance is 0,
  the value it is initialised with, not the original principal.
\<close>

theorem summary_month_zero:
  assumes "db loan_id = Some db_loan" and "loan_schedule_of db_loan = Inr rows"
  shows "get_loan_summary db loan_id 0 =
    Inr \<lparr>current_principal_balance = Finite 0, aggregate_principal_paid = Finite 0,
         aggregate_interest_paid = Finite 0\<rparr>"
  using assms by (rule get_loan_summary_month_0)

theorem summary_month_zero_witness:
  "get_loan_summary
     [1 \<mapsto> \<lparr>amount = Finite 1000, annual_interest_rate = Finite 5, loan_term_months = 2,
            frequency = MONTHLY\<rparr>] 1 0 =
   Inr \<lparr>current_principal_balance = Finite 0, aggregate_principal_paid = Finite 0,
        aggregate_interest_paid = Finite 0\<rparr>"
  by (rule summary_month_zero [OF _ ex_loan_schedule]) simp

subsection \<open>C10: payment, interest and principal of a row\<close>

text \<open>
  Claim C10 says that in every row the payment equals the interest plus the principal
  component exactly. In a row before the closing one the principal component is the float
  difference of payment and interest, and adding the interest back need not return the
  payment: for 11.5 at 10 percent over 2 yearly periods the first row has the payment 6.63,
  the interest 1.15 and the principal component 5.48, and 1.15 + 5.48 is 6.630000000000001.
\<close>

theorem row_identity_counterexample:
  "amortization_schedule (Finite (23 / 2)) (lit (1 / 10)) 2 YEARLY =
     Inr [(1, lit (663 / 100), lit (115 / 100), lit (548 / 100), lit (602 / 100)),
          (2, lit (6619999999999999 / 1000000000000000), lit (6 / 10), lit (602 / 100), Finite 0)] \<and>
   fadd (lit (115 / 100)) (lit (548 / 100)) = lit (6630000000000001 / 1000000000000000) \<and>
   \<not> row_sums_up (1, lit (663 / 100), lit (115 / 100), lit (548 / 100), lit (602 / 100))"
proof -
  have "\<not> row_sums_up (1, lit (663 / 100), lit (115 / 100), lit (548 / 100), lit (602 / 100))"
    unfolding row_sums_up_def row_amount_def row_interest_def row_principal_def fst_conv snd_conv
      feq_def
    using ex_row_sum by (simp only: simp_thms)
  with ex_two_periods ex_row_sum show ?thesis by (simp only: simp_thms)
qed

text \<open>
  Claim C10 as amended. In the closing row the payment is the float sum of the interest and
  the principal component, so the two are equal by \<^verbatim>\<open>==\<close> unless the payment is NaN. In every
  earlier row the principal component is the float difference of the payment and the
  interest.
\<close>

theorem row_identity:
  assumes "amortization_schedule P rate T f = Inr rows"
  shows "(\<forall>r \<in> set (butlast rows). row_principal r = fsub (row_amount r) (row_interest r)) \<and>
    row_amount (last rows) = fadd (row_interest (last rows)) (row_principal (last rows)) \<and>
    row_sums_up (last rows) = (row_amount (last rows) \<noteq> NaN)"
proof -
  from assms(1) obtain amt adj L b where
    loop: "schedule_loop amt adj P [1 .. T - 1] = (L, b)"
    and rows: "rows = L @ [(T, fadd b (round2 (fmul b adj)), round2 (fmul b adj), b, Finite 0)]"
    by (rule schedule_rows)
  have L: "butlast rows = fst (schedule_loop amt adj P [1 .. T - 1])"
    by (simp add: rows loop)
  have 1: "\<forall>r \<in> set (butlast rows). row_principal r = fsub (row_amount r) (row_interest r)"
    unfolding L using schedule_loop_principal by blast
  have 2: "row_amount (last rows) = fadd (row_interest (last rows)) (row_principal (last rows))"
    by (simp add: rows row_amount_def row_interest_def row_principal_def fadd_commute)
  show ?thesis using 1 2 by (simp add: row_sums_up_def feq_def)
qed

theorem row_identity_witness:
  "row_amount (last (projr (amortization_schedule (Finite (23 / 2)) (lit (1 / 10)) 2 YEARLY))) =
     fadd (row_interest (last (projr (amortization_schedule (Finite (23 / 2)) (lit (1 / 10)) 2 YEARLY))))
          (row_principal (last (projr (amortization_schedule (Finite (23 / 2)) (lit (1 / 10)) 2 YEARLY)))) \<and>
   row_principal (hd (projr (amortization_schedule (Finite (23 / 2)) (lit (1 / 10)) 2 YEARLY))) =
     fsub (row_amount (hd (projr (amortization_schedule (Finite (23 / 2)) (lit (1 / 10)) 2 YEARLY))))
          (row_interest (hd (projr (amortization_schedule (Finite (23 / 2)) (lit (1 / 10)) 2 YEARLY))))"
  using row_identity [OF ex_two_periods]
  by (simp add: ex_two_periods del: fadd.simps)

end
